theory Spec2Isabelle
  imports Complex_Main "HOL-Library.AList"
begin

section \<open>Common types\<close>

text \<open>
  Calendar dates are the strings \<^verbatim>\<open>YYYY-MM-DD\<close> of the source (\<^verbatim>\<open>date.today().isoformat()\<close>,
  the \<^verbatim>\<open>start_date\<close> and \<^verbatim>\<open>end_date\<close> arguments).  Strings of that fixed format are ordered
  like the days they name, so a date is modelled by its day number.  Clock readings
  (\<^verbatim>\<open>time.time()\<close>, \<^verbatim>\<open>datetime.now()\<close>) are seconds, Python floats idealised as reals.
\<close>

type_synonym date = int

text \<open>The exceptions of \<^verbatim>\<open>tradebot/exceptions.py\<close> and the built-in ones the code raises.\<close>

datatype error =
    DataFetchError
  | InvalidSymbolError
  | ValidationError
  | QuotaExceededError
  | ValueError
  | KeyError
  | OverflowError
  | ZeroDivisionError
  | ConnectionError
  | TimeoutError

section \<open>Quota governor: \<^verbatim>\<open>tradebot/utils/rate_limiter.py\<close>\<close>

text \<open>
  \<^verbatim>\<open>self._current_usage\<close> is a dictionary with the keys \<^verbatim>\<open>date\<close>, \<^verbatim>\<open>used\<close> and
  \<^verbatim>\<open>last_request_time\<close>.
\<close>

record usage =
  cu_date :: date
  cu_used :: int
  cu_last_request_time :: real

text \<open>
  The limiter object.  \<open>quota_tracking\<close> is the SQLite table of that name, keyed by its
  primary key \<^verbatim>\<open>date\<close>; each row holds \<^verbatim>\<open>requests_used\<close> and \<^verbatim>\<open>last_request_time\<close>.  The
  storage engine is taken to be available: \<^verbatim>\<open>sqlite3.Error\<close> is not part of the model.
  The lock is not modelled; every operation below runs to completion on its own.
\<close>

record rate_limiter =
  daily_limit :: int
  min_interval :: real
  last_request_time :: real
  current_usage :: usage
  quota_tracking :: "date \<rightharpoonup> (int \<times> real)"

text \<open>The dictionary \<^verbatim>\<open>get_usage\<close> returns.\<close>

record usage_info =
  ui_date :: date
  ui_used :: int
  ui_limit :: int
  ui_remaining :: int
  ui_percentage :: real

text \<open>\<^verbatim>\<open>_load_daily_usage\<close>: the row of today, or a fresh zeroed usage.\<close>

definition load_daily_usage :: "date \<Rightarrow> (date \<rightharpoonup> (int \<times> real)) \<Rightarrow> usage" where
  "load_daily_usage today tbl =
     (case tbl today of
        Some (requests_used, lrt) \<Rightarrow>
          \<lparr>cu_date = today, cu_used = requests_used, cu_last_request_time = lrt\<rparr>
      | None \<Rightarrow> \<lparr>cu_date = today, cu_used = 0, cu_last_request_time = 0\<rparr>)"

text \<open>\<^verbatim>\<open>__init__\<close>: opens the table at the storage path and loads today's usage.\<close>

definition init_limiter :: "date \<Rightarrow> int \<Rightarrow> real \<Rightarrow> (date \<rightharpoonup> (int \<times> real)) \<Rightarrow> rate_limiter" where
  "init_limiter today dl ival tbl =
     \<lparr>daily_limit = dl, min_interval = ival, last_request_time = 0,
      current_usage = load_daily_usage today tbl, quota_tracking = tbl\<rparr>"

text \<open>\<^verbatim>\<open>_save_daily_usage\<close>: \<^verbatim>\<open>INSERT OR REPLACE\<close> of the current usage row.\<close>

definition save_daily_usage :: "rate_limiter \<Rightarrow> rate_limiter" where
  "save_daily_usage L =
     L\<lparr>quota_tracking := (quota_tracking L)
          (cu_date (current_usage L) \<mapsto>
             (cu_used (current_usage L), cu_last_request_time (current_usage L)))\<rparr>"

text \<open>\<^verbatim>\<open>_reset_daily_quota\<close>.\<close>

definition reset_daily_quota :: "date \<Rightarrow> rate_limiter \<Rightarrow> rate_limiter" where
  "reset_daily_quota today L =
     save_daily_usage
       (L\<lparr>current_usage := \<lparr>cu_date = today, cu_used = 0, cu_last_request_time = 0\<rparr>\<rparr>)"

text \<open>
  The test \<^verbatim>\<open>if self._current_usage['date'] != today: self._reset_daily_quota()\<close> that opens
  \<^verbatim>\<open>can_make_request\<close>, \<^verbatim>\<open>record_request\<close> and \<^verbatim>\<open>get_usage\<close>.
\<close>

definition rollover :: "date \<Rightarrow> rate_limiter \<Rightarrow> rate_limiter" where
  "rollover today L =
     (if cu_date (current_usage L) \<noteq> today then reset_daily_quota today L else L)"

text \<open>\<^verbatim>\<open>can_make_request\<close>: the answer and the limiter after the day check.\<close>

definition can_make_request :: "date \<Rightarrow> rate_limiter \<Rightarrow> bool \<times> rate_limiter" where
  "can_make_request today L =
     (let L1 = rollover today L in
      if cu_used (current_usage L1) \<ge> daily_limit L1 then (False, L1) else (True, L1))"

text \<open>\<^verbatim>\<open>record_request\<close>; \<open>t\<close> is the reading of \<^verbatim>\<open>time.time()\<close>.\<close>

definition record_request :: "date \<Rightarrow> real \<Rightarrow> rate_limiter \<Rightarrow> rate_limiter" where
  "record_request today t L =
     (let L1 = rollover today L;
          cu = current_usage L1;
          L2 = L1\<lparr>current_usage := cu\<lparr>cu_used := cu_used cu + 1, cu_last_request_time := t\<rparr>\<rparr>
      in save_daily_usage L2)"

text \<open>
  \<^verbatim>\<open>acquire\<close>; \<open>t\<close> is the first reading of \<^verbatim>\<open>time.time()\<close>.  \<^verbatim>\<open>time.sleep\<close> advances the clock by
  the time slept, and the day does not change while the call runs.
\<close>

definition acquire :: "date \<Rightarrow> real \<Rightarrow> rate_limiter \<Rightarrow> (error + unit) \<times> rate_limiter" where
  "acquire today t L =
     (let (ok, L1) = can_make_request today L in
      if \<not> ok then (Inl QuotaExceededError, L1)
      else
        let time_since_last = t - last_request_time L1;
            t' = (if time_since_last < min_interval L1
                  then t + (min_interval L1 - time_since_last) else t);
            L2 = L1\<lparr>last_request_time := t'\<rparr>
        in (Inr (), record_request today t' L2))"

text \<open>
  \<^verbatim>\<open>get_usage\<close>.  The percentage divides by \<^verbatim>\<open>daily_limit\<close>; Python raises
  \<^verbatim>\<open>ZeroDivisionError\<close> when it is zero.
\<close>

definition get_usage :: "date \<Rightarrow> rate_limiter \<Rightarrow> (error + usage_info) \<times> rate_limiter" where
  "get_usage today L =
     (let L1 = rollover today L; cu = current_usage L1 in
      if daily_limit L1 = 0 then (Inl ZeroDivisionError, L1)
      else (Inr \<lparr>ui_date = cu_date cu,
                 ui_used = cu_used cu,
                 ui_limit = daily_limit L1,
                 ui_remaining = daily_limit L1 - cu_used cu,
                 ui_percentage = (real_of_int (cu_used cu) / real_of_int (daily_limit L1)) * 100\<rparr>,
            L1))"

text \<open>A run of \<^verbatim>\<open>record_request\<close> calls on one day, one clock reading per call.\<close>

definition record_requests :: "date \<Rightarrow> real list \<Rightarrow> rate_limiter \<Rightarrow> rate_limiter" where
  "record_requests today ts L = foldl (\<lambda>S t. record_request today t S) L ts"

section \<open>Datasets\<close>

text \<open>
  A pandas \<^verbatim>\<open>DataFrame\<close>: the column names and the rows, each row with its index label and
  its cells by column name.  A label is a timestamp of a daily bar, or a label that
  \<^verbatim>\<open>pd.to_datetime\<close> cannot convert.  A cell is a number, or a value that \<^verbatim>\<open>pd.to_numeric\<close> and
  \<^verbatim>\<open>float\<close> reject.  A number is the value the row of \<^verbatim>\<open>iterrows\<close> presents, a float; floats are
  idealised as reals (no NaN, no infinities).
\<close>

datatype label = Stamp date | NonDate string

datatype cell = Num real | NonNum string

record frame =
  columns :: "string list"
  rows :: "(label \<times> (string \<times> cell) list) list"

text \<open>\<^verbatim>\<open>data.empty\<close>: one of the two axes has length zero.\<close>

definition frame_empty :: "frame \<Rightarrow> bool" where
  "frame_empty f = (rows f = [] \<or> columns f = [])"

text \<open>\<^verbatim>\<open>row[c]\<close>, \<^verbatim>\<open>float(row[c])\<close> and \<^verbatim>\<open>int(row[c])\<close>.\<close>

definition row_get :: "(string \<times> cell) list \<Rightarrow> string \<Rightarrow> error + cell" where
  "row_get r c = (case map_of r c of None \<Rightarrow> Inl KeyError | Some v \<Rightarrow> Inr v)"

definition py_float :: "(string \<times> cell) list \<Rightarrow> string \<Rightarrow> error + real" where
  "py_float r c =
     (case row_get r c of
        Inl e \<Rightarrow> Inl e
      | Inr (Num x) \<Rightarrow> Inr x
      | Inr (NonNum _) \<Rightarrow> Inl ValueError)"

definition py_trunc :: "real \<Rightarrow> int" where
  "py_trunc x = (if 0 \<le> x then \<lfloor>x\<rfloor> else \<lceil>x\<rceil>)"

definition py_int :: "(string \<times> cell) list \<Rightarrow> string \<Rightarrow> error + int" where
  "py_int r c =
     (case row_get r c of
        Inl e \<Rightarrow> Inl e
      | Inr (Num x) \<Rightarrow> Inr (py_trunc x)
      | Inr (NonNum _) \<Rightarrow> Inl ValueError)"

section \<open>Validator: \<^verbatim>\<open>tradebot/data/validator.py\<close>\<close>

definition REQUIRED_COLUMNS :: "string list" where
  "REQUIRED_COLUMNS = [''open'', ''high'', ''low'', ''close'', ''volume'']"

definition NUMERIC_COLUMNS :: "string list" where
  "NUMERIC_COLUMNS = [''open'', ''high'', ''low'', ''close'', ''volume'']"

text \<open>\<^verbatim>\<open>_validate_columns\<close>.\<close>

definition validate_columns :: "frame \<Rightarrow> error + unit" where
  "validate_columns f =
     (let missing_columns = filter (\<lambda>col. col \<notin> set (columns f)) REQUIRED_COLUMNS in
      if missing_columns \<noteq> [] then Inl ValidationError else Inr ())"

text \<open>\<^verbatim>\<open>pd.to_numeric(data[col], errors='raise')\<close> succeeds when no cell of the column is rejected.\<close>

definition to_numeric_ok :: "frame \<Rightarrow> string \<Rightarrow> bool" where
  "to_numeric_ok f col =
     list_all (\<lambda>(l, r). case map_of r col of Some (NonNum _) \<Rightarrow> False | _ \<Rightarrow> True) (rows f)"

text \<open>\<^verbatim>\<open>_validate_data_types\<close>: the loop over \<^verbatim>\<open>NUMERIC_COLUMNS\<close>, stopping at the first raise.\<close>

fun validate_data_types_loop :: "frame \<Rightarrow> string list \<Rightarrow> error + unit" where
  "validate_data_types_loop f [] = Inr ()"
| "validate_data_types_loop f (col # cols) =
     (if col \<in> set (columns f) \<and> \<not> to_numeric_ok f col then Inl ValidationError
      else validate_data_types_loop f cols)"

definition validate_data_types :: "frame \<Rightarrow> error + unit" where
  "validate_data_types f = validate_data_types_loop f NUMERIC_COLUMNS"

text \<open>
  The index as dates: \<^verbatim>\<open>None\<close> when some label is not a datetime and cannot be converted
  to one.
\<close>

fun index_dates :: "(label \<times> (string \<times> cell) list) list \<Rightarrow> date list option" where
  "index_dates [] = Some []"
| "index_dates ((Stamp d, r) # rest) = map_option ((#) d) (index_dates rest)"
| "index_dates ((NonDate x, r) # rest) = None"

text \<open>
  \<^verbatim>\<open>_validate_chronological_order\<close>.  \<^verbatim>\<open>Index.is_monotonic_increasing\<close> of pandas holds when
  each value is greater than or equal to the one before it.
\<close>

definition validate_chronological_order :: "frame \<Rightarrow> error + unit" where
  "validate_chronological_order f =
     (case index_dates (rows f) of
        None \<Rightarrow> Inl ValidationError
      | Some ds \<Rightarrow> if \<not> sorted ds then Inl ValidationError else Inr ())"

text \<open>\<^verbatim>\<open>DataValidator.validate\<close>.\<close>

definition validate :: "frame \<Rightarrow> error + frame" where
  "validate f =
     (if frame_empty f then Inl ValidationError
      else case validate_columns f of
        Inl e \<Rightarrow> Inl e
      | Inr _ \<Rightarrow>
          (case validate_data_types f of
             Inl e \<Rightarrow> Inl e
           | Inr _ \<Rightarrow>
               (case validate_chronological_order f of
                  Inl e \<Rightarrow> Inl e
                | Inr _ \<Rightarrow> Inr f)))"

section \<open>Cache store: \<^verbatim>\<open>tradebot/data/models.py\<close> and \<^verbatim>\<open>tradebot/data/cache.py\<close>\<close>

text \<open>The rows of the tables \<^verbatim>\<open>stock_data\<close> and \<^verbatim>\<open>cache_metadata\<close>, without their key fields.\<close>

record stock_data =
  open_price :: real
  high_price :: real
  low_price :: real
  close_price :: real
  volume :: int
  sd_created_at :: real

record cache_metadata =
  md_symbol :: string
  md_start_date :: date
  md_end_date :: date
  record_count :: int
  data_size_bytes :: int
  md_created_at :: real
  md_last_accessed :: real

text \<open>
  \<^verbatim>\<open>generate_cache_key\<close> builds \<^verbatim>\<open>f"{symbol}_{start_date}_{end_date}"\<close>.  With both dates in the
  fixed format \<^verbatim>\<open>YYYY-MM-DD\<close> the string determines, and is determined by, the triple.
\<close>

type_synonym cache_key = "string \<times> date \<times> date"

definition generate_cache_key :: "string \<Rightarrow> date \<Rightarrow> date \<Rightarrow> cache_key" where
  "generate_cache_key symbol start_date end_date = (symbol, start_date, end_date)"

text \<open>
  The database.  \<open>stock_table\<close> lists the rows of \<^verbatim>\<open>stock_data\<close>, each under its composite
  primary key (symbol, date), where the date is the row's label as \<^verbatim>\<open>store\<close> wrote it;
  \<open>metadata_table\<close> is keyed by \<^verbatim>\<open>cache_key\<close>.
\<close>

type_synonym stock_rows = "((string \<times> label) \<times> stock_data) list"

record data_cache =
  stock_table :: stock_rows
  metadata_table :: "cache_key \<rightharpoonup> cache_metadata"

text \<open>
  The column \<^verbatim>\<open>volume\<close> is an SQLite \<^verbatim>\<open>INTEGER\<close>: binding a Python integer outside the signed
  64-bit range raises \<^verbatim>\<open>OverflowError\<close>.
\<close>

definition sqlite_integer :: "int \<Rightarrow> bool" where
  "sqlite_integer n = (- (2 ^ 63) \<le> n \<and> n < 2 ^ 63)"

text \<open>
  The loop of \<^verbatim>\<open>store\<close> over \<^verbatim>\<open>data.iterrows()\<close>: \<^verbatim>\<open>StockData.create\<close>, and on \<^verbatim>\<open>IntegrityError\<close>
  (the key exists) \<^verbatim>\<open>StockData.update\<close>, which leaves \<^verbatim>\<open>created_at\<close> as it was.  The arguments
  are converted in the order written; the first conversion that raises ends the loop, and so
  does a volume that SQLite cannot bind.  \<open>now\<close> is \<^verbatim>\<open>datetime.now()\<close>.  The result is the table
  and \<^verbatim>\<open>records_stored\<close>.
\<close>

fun store_rows ::
  "real \<Rightarrow> string \<Rightarrow> (label \<times> (string \<times> cell) list) list \<Rightarrow> stock_rows \<Rightarrow> int \<Rightarrow>
   error + (stock_rows \<times> int)" where
  "store_rows now symbol [] tbl records_stored = Inr (tbl, records_stored)"
| "store_rows now symbol ((date_index, row) # rest) tbl records_stored =
     (case py_float row ''open'' of Inl e \<Rightarrow> Inl e | Inr op \<Rightarrow>
     (case py_float row ''high'' of Inl e \<Rightarrow> Inl e | Inr hi \<Rightarrow>
     (case py_float row ''low'' of Inl e \<Rightarrow> Inl e | Inr lo \<Rightarrow>
     (case py_float row ''close'' of Inl e \<Rightarrow> Inl e | Inr cl \<Rightarrow>
     (case py_int row ''volume'' of Inl e \<Rightarrow> Inl e | Inr vol \<Rightarrow>
        (if \<not> sqlite_integer vol then Inl OverflowError
         else
           let key = (symbol, date_index);
               new_row =
                 (case map_of tbl key of
                    None \<Rightarrow>
                      \<lparr>open_price = op, high_price = hi, low_price = lo, close_price = cl,
                       volume = vol, sd_created_at = now\<rparr>
                  | Some old \<Rightarrow>
                      old\<lparr>open_price := op, high_price := hi, low_price := lo,
                          close_price := cl, volume := vol\<rparr>)
           in store_rows now symbol rest (AList.update key new_row tbl)
                (records_stored + 1)))))))"

text \<open>
  \<^verbatim>\<open>DataCache.store\<close>.  \<open>data_size\<close> is \<^verbatim>\<open>len(pickle.dumps(data))\<close>, computed by the caller's
  \<open>pickle_size\<close>.  The writes run inside \<^verbatim>\<open>database.atomic()\<close>: when the block raises, the
  transaction is rolled back and the exception re-raised, so the cache is as before.
\<close>

definition store ::
  "real \<Rightarrow> (frame \<Rightarrow> int) \<Rightarrow> data_cache \<Rightarrow> string \<Rightarrow> date \<Rightarrow> date \<Rightarrow> frame \<Rightarrow>
   (error + unit) \<times> data_cache" where
  "store now pickle_size C symbol start_date end_date data =
     (if frame_empty data then (Inr (), C)
      else
        let required_columns = [''open'', ''high'', ''low'', ''close'', ''volume''];
            missing_columns = filter (\<lambda>col. col \<notin> set (columns data)) required_columns
        in if missing_columns \<noteq> [] then (Inl ValueError, C)
           else
             (case store_rows now symbol (rows data) (stock_table C) 0 of
                Inl e \<Rightarrow> (Inl e, C)
              | Inr (tbl, records_stored) \<Rightarrow>
                  (let cache_key = generate_cache_key symbol start_date end_date;
                       data_size = pickle_size data;
                       md =
                         (case metadata_table C cache_key of
                            None \<Rightarrow>
                              \<lparr>md_symbol = symbol, md_start_date = start_date,
                               md_end_date = end_date, record_count = records_stored,
                               data_size_bytes = data_size, md_created_at = now,
                               md_last_accessed = now\<rparr>
                          | Some old \<Rightarrow>
                              old\<lparr>record_count := records_stored,
                                  data_size_bytes := data_size, md_last_accessed := now\<rparr>)
                   in (Inr (),
                       C\<lparr>stock_table := tbl,
                         metadata_table := (metadata_table C)(cache_key \<mapsto> md)\<rparr>))))"

text \<open>
  The comparison \<^verbatim>\<open>date >= start_date AND date <= end_date\<close> of the query of \<^verbatim>\<open>get\<close>.  A date
  label is compared as the day it names.  A label that is not a date is stored as text, and
  SQLite compares that text with the two date strings: \<open>between\<close> stands for that comparison.
\<close>

fun in_range :: "(string \<Rightarrow> date \<Rightarrow> date \<Rightarrow> bool) \<Rightarrow> date \<Rightarrow> date \<Rightarrow> label \<Rightarrow> bool" where
  "in_range between start_date end_date (Stamp d) = (start_date \<le> d \<and> d \<le> end_date)"
| "in_range between start_date end_date (NonDate x) = between x start_date end_date"

text \<open>The rows the query of \<^verbatim>\<open>get\<close> selects: those of the symbol with the date in range.\<close>

definition select_range ::
  "(string \<Rightarrow> date \<Rightarrow> date \<Rightarrow> bool) \<Rightarrow> data_cache \<Rightarrow> string \<Rightarrow> date \<Rightarrow> date \<Rightarrow> stock_rows" where
  "select_range between C symbol start_date end_date =
     filter (\<lambda>((sy, lbl), r). sy = symbol \<and> in_range between start_date end_date lbl)
       (stock_table C)"

text \<open>
  \<^verbatim>\<open>pd.to_datetime(dates)\<close> over the selected rows: the dates with their rows, or \<^verbatim>\<open>None\<close> when
  some label cannot be converted (the call raises).
\<close>

fun to_datetime :: "stock_rows \<Rightarrow> (date \<times> stock_data) list option" where
  "to_datetime [] = Some []"
| "to_datetime (((sy, Stamp d), r) # rest) = map_option ((#) (d, r)) (to_datetime rest)"
| "to_datetime (((sy, NonDate x), r) # rest) = None"

definition record_to_row :: "date \<times> stock_data \<Rightarrow> label \<times> (string \<times> cell) list" where
  "record_to_row = (\<lambda>(d, r).
     (Stamp d,
      [(''open'', Num (open_price r)), (''high'', Num (high_price r)),
       (''low'', Num (low_price r)), (''close'', Num (close_price r)),
       (''volume'', Num (real_of_int (volume r)))]))"

text \<open>
  \<^verbatim>\<open>DataCache.get\<close>: \<^verbatim>\<open>None\<close> without a metadata row; otherwise \<^verbatim>\<open>update_access_time\<close> and the
  selected rows, in ascending order of date, as a frame.  The result is \<^verbatim>\<open>None\<close> when no row
  is selected, and also when a selected label is not a date: the conversion raises and the
  handler of \<^verbatim>\<open>get\<close> returns \<^verbatim>\<open>None\<close>.
\<close>

definition cache_get ::
  "real \<Rightarrow> (string \<Rightarrow> date \<Rightarrow> date \<Rightarrow> bool) \<Rightarrow> data_cache \<Rightarrow> string \<Rightarrow> date \<Rightarrow> date \<Rightarrow>
   frame option \<times> data_cache" where
  "cache_get now between C symbol start_date end_date =
     (let cache_key = generate_cache_key symbol start_date end_date in
      case metadata_table C cache_key of
        None \<Rightarrow> (None, C)
      | Some metadata \<Rightarrow>
          (let C1 = C\<lparr>metadata_table :=
                        (metadata_table C)(cache_key \<mapsto> metadata\<lparr>md_last_accessed := now\<rparr>)\<rparr>;
               records = select_range between C1 symbol start_date end_date
           in if records = [] then (None, C1)
              else
                (case to_datetime records of
                   None \<Rightarrow> (None, C1)
                 | Some dated \<Rightarrow>
                     (Some \<lparr>columns = [''open'', ''high'', ''low'', ''close'', ''volume''],
                            rows = map record_to_row (sort_key fst dated)\<rparr>, C1))))"

text \<open>\<^verbatim>\<open>DataCache.get_metadata\<close>: the metadata row of the exact range, if any.\<close>

definition get_metadata ::
  "data_cache \<Rightarrow> string \<Rightarrow> date \<Rightarrow> date \<Rightarrow> cache_metadata option" where
  "get_metadata C symbol start_date end_date =
     metadata_table C (generate_cache_key symbol start_date end_date)"

section \<open>The environment of a call\<close>

text \<open>
  A \<^verbatim>\<open>datetime\<close> object as far as the code reads it: the day of the week (Monday is 0), the
  time of day, and the zone attached to it (\<^verbatim>\<open>None\<close> for a naive value).
\<close>

type_synonym time_of_day = "nat \<times> nat \<times> nat \<times> nat"

record datetime =
  weekday :: nat
  time_of :: time_of_day
  tzinfo :: "string option"

text \<open>
  What one call reads from outside the program: the clocks, the zone database, SQLite's
  comparison of a stored text with two date strings, the data
  provider (\<^verbatim>\<open>TDClient(...).time_series(...).as_pandas()\<close>, which returns a frame or raises) and
  the size of a pickled frame.  The readings do not change while the call runs.
\<close>

record env =
  today :: date
  time_time :: real
  now_local :: real
  now_utc :: real
  now_dt :: datetime
  now_in :: "string \<Rightarrow> datetime"
  zone_convert :: "string \<Rightarrow> datetime \<Rightarrow> datetime"
  text_between :: "string \<Rightarrow> date \<Rightarrow> date \<Rightarrow> bool"
  provider :: "string \<Rightarrow> date \<Rightarrow> date \<Rightarrow> error + frame"
  pickle_size :: "frame \<Rightarrow> int"

section \<open>Freshness manager: \<^verbatim>\<open>tradebot/data/freshness.py\<close>\<close>

record freshness_manager =
  timezone :: string
  market_open_time :: time_of_day
  market_close_time :: time_of_day
  intraday :: int
  daily :: int
  after_hours :: int
  weekend :: int

text \<open>\<^verbatim>\<open>__init__\<close>; the four thresholds are the entries of \<^verbatim>\<open>default_freshness_minutes\<close>.\<close>

definition init_freshness_manager :: "string \<Rightarrow> freshness_manager" where
  "init_freshness_manager tz =
     \<lparr>timezone = tz, market_open_time = (9, 30, 0, 0), market_close_time = (16, 0, 0, 0),
      intraday = 5, daily = 60, after_hours = 240, weekend = 1440\<rparr>"

text \<open>Python compares \<^verbatim>\<open>time\<close> objects field by field, hour first.\<close>

fun time_le :: "time_of_day \<Rightarrow> time_of_day \<Rightarrow> bool" where
  "time_le (h1, m1, s1, u1) (h2, m2, s2, u2) =
     (h1 < h2 \<or> (h1 = h2 \<and> (m1 < m2 \<or> (m1 = m2 \<and> (s1 < s2 \<or> (s1 = s2 \<and> u1 \<le> u2))))))"

text \<open>
  \<^verbatim>\<open>dt.astimezone(tz)\<close> returns \<^verbatim>\<open>dt\<close> itself when its zone is \<^verbatim>\<open>tz\<close>, and converts through the
  zone database otherwise.
\<close>

definition astimezone :: "env \<Rightarrow> string \<Rightarrow> datetime \<Rightarrow> datetime" where
  "astimezone E tz dt = (if tzinfo dt = Some tz then dt else zone_convert E tz dt)"

text \<open>The opening lines shared by \<^verbatim>\<open>is_market_open\<close>, \<^verbatim>\<open>is_weekend\<close> and \<^verbatim>\<open>get_market_open_time\<close>.\<close>

definition localize :: "env \<Rightarrow> freshness_manager \<Rightarrow> datetime option \<Rightarrow> datetime" where
  "localize E fm dt_opt =
     (case dt_opt of
        None \<Rightarrow>
          (let dt = now_dt E in
           if tzinfo dt = None then dt\<lparr>tzinfo := Some (timezone fm)\<rparr> else dt)
      | Some dt \<Rightarrow>
          if tzinfo dt = None then dt\<lparr>tzinfo := Some (timezone fm)\<rparr>
          else astimezone E (timezone fm) dt)"

definition is_weekend :: "env \<Rightarrow> freshness_manager \<Rightarrow> datetime option \<Rightarrow> bool" where
  "is_weekend E fm dt_opt = (let dt = localize E fm dt_opt in weekday dt \<ge> 5)"

definition is_market_open :: "env \<Rightarrow> freshness_manager \<Rightarrow> datetime option \<Rightarrow> bool" where
  "is_market_open E fm dt_opt =
     (let dt = localize E fm dt_opt in
      if is_weekend E fm (Some dt) then False
      else
        let current_time = time_of dt in
        time_le (market_open_time fm) current_time \<and> time_le current_time (market_close_time fm))"

text \<open>The age of a cached range: minutes, or \<^verbatim>\<open>float('inf')\<close>.\<close>

datatype age = Minutes real | Infinite

text \<open>\<^verbatim>\<open>age_minutes <= threshold_minutes\<close> for an integer threshold.\<close>

fun age_le :: "age \<Rightarrow> int \<Rightarrow> bool" where
  "age_le (Minutes m) t = (m \<le> real_of_int t)"
| "age_le Infinite t = False"

text \<open>
  \<^verbatim>\<open>get_cache_age\<close>.  \<^verbatim>\<open>created_at\<close> was written from the naive \<^verbatim>\<open>datetime.now()\<close>; here it is
  read back, given the zone UTC, and subtracted from the UTC clock.
\<close>

definition get_cache_age :: "env \<Rightarrow> data_cache \<Rightarrow> string \<Rightarrow> date \<Rightarrow> date \<Rightarrow> age" where
  "get_cache_age E C symbol start_date end_date =
     (case get_metadata C symbol start_date end_date of
        None \<Rightarrow> Infinite
      | Some metadata \<Rightarrow>
          (let created_at = md_created_at metadata;
               age_delta = now_utc E - created_at
           in Minutes (max 0 (age_delta / 60))))"

text \<open>\<^verbatim>\<open>_get_adaptive_threshold\<close>; \<open>now\<close> is \<^verbatim>\<open>datetime.now(self.timezone)\<close>.\<close>

definition get_adaptive_threshold :: "env \<Rightarrow> freshness_manager \<Rightarrow> int" where
  "get_adaptive_threshold E fm =
     (let now = (now_in E (timezone fm))\<lparr>tzinfo := Some (timezone fm)\<rparr> in
      if is_weekend E fm (Some now) then weekend fm
      else if is_market_open E fm (Some now) then intraday fm
      else after_hours fm)"

definition is_data_fresh ::
  "env \<Rightarrow> freshness_manager \<Rightarrow> data_cache \<Rightarrow> string \<Rightarrow> date \<Rightarrow> date \<Rightarrow> int option \<Rightarrow> bool" where
  "is_data_fresh E fm C symbol start_date end_date threshold_minutes =
     (let age_minutes = get_cache_age E C symbol start_date end_date;
          threshold = (case threshold_minutes of
                         None \<Rightarrow> get_adaptive_threshold E fm
                       | Some t \<Rightarrow> t)
      in age_le age_minutes threshold)"

section \<open>Acquisition: \<^verbatim>\<open>tradebot/data/fetcher.py\<close> and \<^verbatim>\<open>tradebot/data/batch.py\<close>\<close>

text \<open>
  The handler that closes both fetch functions: \<^verbatim>\<open>InvalidSymbolError\<close> is re-raised, every
  other exception becomes \<^verbatim>\<open>DataFetchError\<close>.
\<close>

definition wrap_error :: "error \<Rightarrow> error" where
  "wrap_error e = (if e = InvalidSymbolError then e else DataFetchError)"

text \<open>\<^verbatim>\<open>DataFetcher._is_fresh\<close>.\<close>

definition is_fresh_cached :: "frame \<Rightarrow> bool" where
  "is_fresh_cached cached_data = True"

text \<open>\<^verbatim>\<open>DataFetcher._validate_data\<close>.\<close>

definition validate_data :: "frame \<Rightarrow> error + frame" where
  "validate_data data = (if frame_empty data then Inl ValueError else validate data)"

text \<open>\<^verbatim>\<open>DataFetcher.fetch_historical_data\<close>: the result, the limiter and the cache.\<close>

definition fetch_historical_data ::
  "env \<Rightarrow> rate_limiter \<Rightarrow> data_cache \<Rightarrow> string \<Rightarrow> date \<Rightarrow> date \<Rightarrow>
   (error + frame) \<times> rate_limiter \<times> data_cache" where
  "fetch_historical_data E L C symbol start_date end_date =
     (let (cached_data, C1) = cache_get (now_local E) (text_between E) C symbol start_date end_date in
      if cached_data \<noteq> None \<and> is_fresh_cached (the cached_data) then (Inr (the cached_data), L, C1)
      else
        let (ok, L1) = can_make_request (today E) L in
        if \<not> ok then (Inl QuotaExceededError, L1, C1)
        else
          (case provider E symbol start_date end_date of
             Inl e \<Rightarrow> (Inl (wrap_error e), L1, C1)
           | Inr data \<Rightarrow>
               (let L2 = record_request (today E) (time_time E) L1 in
                case validate_data data of
                  Inl e \<Rightarrow> (Inl (wrap_error e), L2, C1)
                | Inr validated_data \<Rightarrow>
                    (case store (now_local E) (pickle_size E) C1 symbol start_date end_date
                            validated_data of
                       (Inl e, C2) \<Rightarrow> (Inl (wrap_error e), L2, C2)
                     | (Inr _, C2) \<Rightarrow> (Inr validated_data, L2, C2)))))"

text \<open>
  \<^verbatim>\<open>BatchProcessor._fetch_single_symbol\<close>.  Every path that returns returns a frame, so the
  \<^verbatim>\<open>Optional\<close> of the signature is never \<^verbatim>\<open>None\<close>.
\<close>

definition fetch_single_symbol ::
  "env \<Rightarrow> rate_limiter \<Rightarrow> data_cache \<Rightarrow> string \<Rightarrow> date \<Rightarrow> date \<Rightarrow>
   (error + frame) \<times> rate_limiter \<times> data_cache" where
  "fetch_single_symbol E L C symbol start_date end_date =
     (let (cached_data, C1) = cache_get (now_local E) (text_between E) C symbol start_date end_date in
      case cached_data of
        Some cached \<Rightarrow> (Inr cached, L, C1)
      | None \<Rightarrow>
          (let (ok, L1) = can_make_request (today E) L in
           if \<not> ok then (Inl QuotaExceededError, L1, C1)
           else
             (case provider E symbol start_date end_date of
                Inl e \<Rightarrow> (Inl (wrap_error e), L1, C1)
              | Inr data \<Rightarrow>
                  (let L2 = record_request (today E) (time_time E) L1 in
                   case validate data of
                     Inl e \<Rightarrow> (Inl (wrap_error e), L2, C1)
                   | Inr validated_data \<Rightarrow>
                       (case store (now_local E) (pickle_size E) C1 symbol start_date end_date
                               validated_data of
                          (Inl e, C2) \<Rightarrow> (Inl (wrap_error e), L2, C2)
                        | (Inr _, C2) \<Rightarrow> (Inr validated_data, L2, C2))))))"

text \<open>\<^verbatim>\<open>BatchProcessor.calculate_optimal_batch_size\<close>.\<close>

definition calculate_optimal_batch_size ::
  "env \<Rightarrow> rate_limiter \<Rightarrow> string list \<Rightarrow> (error + int) \<times> rate_limiter" where
  "calculate_optimal_batch_size E L symbols =
     (case get_usage (today E) L of
        (Inl e, L1) \<Rightarrow> (Inl e, L1)
      | (Inr usage, L1) \<Rightarrow>
          (let remaining_quota = ui_remaining usage;
               total_requests_needed = int (length symbols);
               optimal_size = min total_requests_needed remaining_quota
           in if remaining_quota > 0 \<and> optimal_size = 0 then (Inr 1, L1)
              else (Inr optimal_size, L1)))"

text \<open>The slice \<^verbatim>\<open>xs[:n]\<close>; a negative \<^verbatim>\<open>n\<close> counts from the end.\<close>

definition slice_to :: "'a list \<Rightarrow> int \<Rightarrow> 'a list" where
  "slice_to xs n = (if 0 \<le> n then take (nat n) xs else take (nat (int (length xs) + n)) xs)"

text \<open>
  The \<^verbatim>\<open>for\<close> loop of \<^verbatim>\<open>fetch_multiple_symbols\<close>: a symbol whose fetch raises is logged and the
  loop continues; otherwise \<^verbatim>\<open>results[symbol] = data\<close>.
\<close>

fun fetch_loop ::
  "env \<Rightarrow> date \<Rightarrow> date \<Rightarrow> string list \<Rightarrow> rate_limiter \<Rightarrow> data_cache \<Rightarrow> (string \<rightharpoonup> frame) \<Rightarrow>
   (string \<rightharpoonup> frame) \<times> rate_limiter \<times> data_cache" where
  "fetch_loop E start_date end_date [] L C results = (results, L, C)"
| "fetch_loop E start_date end_date (symbol # rest) L C results =
     (case fetch_single_symbol E L C symbol start_date end_date of
        (Inl e, L1, C1) \<Rightarrow> fetch_loop E start_date end_date rest L1 C1 results
      | (Inr data, L1, C1) \<Rightarrow>
          fetch_loop E start_date end_date rest L1 C1 (results(symbol \<mapsto> data)))"

text \<open>\<^verbatim>\<open>BatchProcessor.fetch_multiple_symbols\<close>.\<close>

definition fetch_multiple_symbols ::
  "env \<Rightarrow> rate_limiter \<Rightarrow> data_cache \<Rightarrow> string list \<Rightarrow> date \<Rightarrow> date \<Rightarrow>
   (error + (string \<rightharpoonup> frame)) \<times> rate_limiter \<times> data_cache" where
  "fetch_multiple_symbols E L C symbols start_date end_date =
     (case calculate_optimal_batch_size E L symbols of
        (Inl e, L1) \<Rightarrow> (Inl e, L1, C)
      | (Inr batch_size, L1) \<Rightarrow>
          if batch_size = 0 then (Inl QuotaExceededError, L1, C)
          else
            (let symbols_to_process = slice_to symbols batch_size;
                 (results, L2, C2) =
                   fetch_loop E start_date end_date symbols_to_process L1 C Map.empty
             in (Inr results, L2, C2)))"

section \<open>Error recovery\<close>

text \<open>
  Modelled from the spec: \<^verbatim>\<open>tradebot/data/recovery.py\<close>, which the tests import, is missing
  from the sources.  The specification asks for a back-off time in seconds that is
  "strictly increasing in attempt, starting at \<open>\<ge>\<close> 1 second, capped at 60 seconds (e.g.,
  doubling per attempt, clamped)": one second for the first attempt, doubled for each
  further attempt, clamped at sixty.
\<close>

definition calculate_backoff_time :: "nat \<Rightarrow> real" where
  "calculate_backoff_time attempt = min 60 (2 ^ (attempt - 1))"

section \<open>Concrete states used in the examples\<close>

text \<open>A limiter on day \<open>d\<close> with limit \<open>dl\<close> and \<open>n\<close> requests recorded, its table still empty.\<close>

definition limiter_at :: "date \<Rightarrow> int \<Rightarrow> int \<Rightarrow> rate_limiter" where
  "limiter_at d dl n =
     \<lparr>daily_limit = dl, min_interval = 15 / 2, last_request_time = 0,
      current_usage = \<lparr>cu_date = d, cu_used = n, cu_last_request_time = 0\<rparr>,
      quota_tracking = Map.empty\<rparr>"

text \<open>An empty database.\<close>

definition empty_cache :: data_cache where
  "empty_cache = \<lparr>stock_table = [], metadata_table = Map.empty\<rparr>"

text \<open>A daily bar dated \<open>d\<close>, and the frame of the bars of the dates \<open>ds\<close>, in that order.\<close>

definition bar :: "date \<Rightarrow> label \<times> (string \<times> cell) list" where
  "bar d = (Stamp d, [(''open'', Num 100), (''high'', Num 105), (''low'', Num 99),
                      (''close'', Num 103), (''volume'', Num 1000000)])"

definition bars :: "date list \<Rightarrow> frame" where
  "bars ds = \<lparr>columns = [''open'', ''high'', ''low'', ''close'', ''volume''], rows = map bar ds\<rparr>"

text \<open>One bar without the \<^verbatim>\<open>volume\<close> column.\<close>

definition no_volume_frame :: frame where
  "no_volume_frame =
     \<lparr>columns = [''open'', ''high'', ''low'', ''close''],
      rows = [(Stamp 19000, [(''open'', Num 100), (''high'', Num 105), (''low'', Num 99),
                             (''close'', Num 103)])]\<rparr>"

text \<open>
  Three providers: one that rejects the symbol \<^verbatim>\<open>INVALID\<close> and returns two bars for any other,
  one that returns its two bars in the wrong order, and one that is unreachable.
\<close>

definition example_provider :: "string \<Rightarrow> date \<Rightarrow> date \<Rightarrow> error + frame" where
  "example_provider symbol start_date end_date =
     (if symbol = ''INVALID'' then Inl InvalidSymbolError else Inr (bars [start_date, end_date]))"

definition unordered_provider :: "string \<Rightarrow> date \<Rightarrow> date \<Rightarrow> error + frame" where
  "unordered_provider symbol start_date end_date = Inr (bars [end_date, start_date])"

definition failing_provider :: "string \<Rightarrow> date \<Rightarrow> date \<Rightarrow> error + frame" where
  "failing_provider symbol start_date end_date = Inl ConnectionError"

definition row_count :: "frame \<Rightarrow> int" where
  "row_count f = int (length (rows f))"

text \<open>Day 19000, a Saturday morning at the exchange, 1000 seconds on every clock.\<close>

definition example_env :: env where
  "example_env =
     \<lparr>today = 19000, time_time = 1000, now_local = 1000, now_utc = 1000,
      now_dt = \<lparr>weekday = 5, time_of = (10, 0, 0, 0), tzinfo = None\<rparr>,
      now_in = (\<lambda>tz. \<lparr>weekday = 5, time_of = (10, 0, 0, 0), tzinfo = Some tz\<rparr>),
      zone_convert = (\<lambda>tz dt. dt\<lparr>tzinfo := Some tz\<rparr>),
      text_between = (\<lambda>x start_date end_date. False),
      provider = example_provider,
      pickle_size = row_count\<rparr>"

definition five_symbols :: "string list" where
  "five_symbols = [''AAPL'', ''MSFT'', ''GOOGL'', ''AMZN'', ''TSLA'']"

text \<open>
  A cache filled by \<^verbatim>\<open>store\<close> at clock 0, read ten days (864000 seconds) later while the
  provider is unreachable.
\<close>

definition stale_cache :: data_cache where
  "stale_cache = snd (store 0 row_count empty_cache ''AAPL'' 19000 19001 (bars [19000, 19001]))"

definition stale_env :: env where
  "stale_env = example_env\<lparr>now_local := 864000, now_utc := 864000, provider := failing_provider\<rparr>"

section \<open>Auxiliary predicates\<close>

text \<open>The lookup of the symbol and range in this cache returns a dataset.\<close>

definition cache_hit :: "env \<Rightarrow> data_cache \<Rightarrow> date \<Rightarrow> date \<Rightarrow> string \<Rightarrow> bool" where
  "cache_hit E C s e symbol =
     (fst (cache_get (now_local E) (text_between E) C symbol s e) \<noteq> None)"

text \<open>
  The provider returns, for this symbol and range, a dataset that passes validation and whose
  rows can all be written.
\<close>

definition fetchable :: "env \<Rightarrow> date \<Rightarrow> date \<Rightarrow> string \<Rightarrow> bool" where
  "fetchable E s e symbol =
     (case provider E symbol s e of
        Inl err \<Rightarrow> False
      | Inr f \<Rightarrow> \<not> isl (validate f) \<and> \<not> isl (store_rows (now_local E) symbol (rows f) [] 0))"

section \<open>Properties of the quota governor\<close>

lemma rollover_same_day:
  "cu_date (current_usage L) = d \<Longrightarrow> rollover d L = L"
  by (simp add: rollover_def)

lemma rollover_date: "cu_date (current_usage (rollover d L)) = d"
  by (simp add: rollover_def reset_daily_quota_def save_daily_usage_def)

lemma rollover_daily_limit: "daily_limit (rollover d L) = daily_limit L"
  by (simp add: rollover_def reset_daily_quota_def save_daily_usage_def)

lemma record_request_usage:
  "current_usage (record_request d t L) =
     (current_usage (rollover d L))
       \<lparr>cu_used := cu_used (current_usage (rollover d L)) + 1, cu_last_request_time := t\<rparr>"
  by (simp add: record_request_def save_daily_usage_def Let_def)

lemma record_request_daily_limit: "daily_limit (record_request d t L) = daily_limit L"
  by (simp add: record_request_def save_daily_usage_def Let_def rollover_daily_limit)

lemma record_requests_state:
  "cu_date (current_usage L) = d \<Longrightarrow>
   cu_date (current_usage (record_requests d ts L)) = d \<and>
   cu_used (current_usage (record_requests d ts L)) = cu_used (current_usage L) + int (length ts) \<and>
   daily_limit (record_requests d ts L) = daily_limit L"
proof (induction ts arbitrary: L)
  case Nil
  then show ?case by (simp add: record_requests_def)
next
  case (Cons t ts)
  let ?L1 = "record_request d t L"
  have d1: "cu_date (current_usage ?L1) = d"
    by (simp add: record_request_usage rollover_date)
  have u1: "cu_used (current_usage ?L1) = cu_used (current_usage L) + 1"
    using Cons.prems by (simp add: record_request_usage rollover_same_day)
  have unfold: "record_requests d (t # ts) L = record_requests d ts ?L1"
    by (simp add: record_requests_def)
  from Cons.IH [OF d1] u1 show ?case
    by (simp add: unfold record_request_daily_limit)
qed

text \<open>
  Claim C2.  Start on a fresh ledger day \<open>d\<close> (the usage is dated \<open>d\<close> and counts zero) and
  call \<^verbatim>\<open>record_request\<close> once per clock reading in \<open>ts\<close>, all on day \<open>d\<close>.  Then \<^verbatim>\<open>get_usage\<close>
  reports \<^verbatim>\<open>used\<close> equal to the number of calls, and \<^verbatim>\<open>can_make_request\<close> answers true exactly
  when that number is below \<^verbatim>\<open>daily_limit\<close>.  The limit is not zero, the one value at which
  \<^verbatim>\<open>get_usage\<close> cannot compute its percentage.
\<close>

theorem record_requests_count:
  assumes "cu_date (current_usage L) = d"
    and "cu_used (current_usage L) = 0"
    and "daily_limit L \<noteq> 0"
  shows "(\<exists>u. fst (get_usage d (record_requests d ts L)) = Inr u \<and> ui_used u = int (length ts)) \<and>
         (fst (can_make_request d (record_requests d ts L)) \<longleftrightarrow> int (length ts) < daily_limit L)"
proof -
  let ?S = "record_requests d ts L"
  from record_requests_state [OF assms(1), of ts] assms(2)
  have dt: "cu_date (current_usage ?S) = d"
    and us: "cu_used (current_usage ?S) = int (length ts)"
    and dl: "daily_limit ?S = daily_limit L" by simp_all
  have ro: "rollover d ?S = ?S" using dt by (rule rollover_same_day)
  have "\<exists>u. fst (get_usage d ?S) = Inr u \<and> ui_used u = int (length ts)"
    using assms(3) by (simp add: get_usage_def Let_def ro us dl)
  moreover have "fst (can_make_request d ?S) \<longleftrightarrow> int (length ts) < daily_limit L"
    by (auto simp add: can_make_request_def Let_def ro us dl)
  ultimately show ?thesis by simp
qed

theorem record_requests_count_witness:
  "cu_date (current_usage (init_limiter 19000 3 (15 / 2) Map.empty)) = 19000 \<and>
   cu_used (current_usage (init_limiter 19000 3 (15 / 2) Map.empty)) = 0 \<and>
   daily_limit (init_limiter 19000 3 (15 / 2) Map.empty) \<noteq> 0 \<and>
   (\<exists>u. fst (get_usage 19000
           (record_requests 19000 [1, 2, 3] (init_limiter 19000 3 (15 / 2) Map.empty))) = Inr u \<and>
        ui_used u = 3) \<and>
   \<not> fst (can_make_request 19000
      (record_requests 19000 [1, 2, 3] (init_limiter 19000 3 (15 / 2) Map.empty)))"
  using record_requests_count [of "init_limiter 19000 3 (15 / 2) Map.empty" 19000 "[1, 2, 3]"]
  by (simp add: init_limiter_def load_daily_usage_def)

text \<open>
  Claim C3.  \<^verbatim>\<open>acquire\<close> raises \<^verbatim>\<open>QuotaExceededError\<close> exactly when \<^verbatim>\<open>can_make_request\<close> answers
  false.  On that path the limiter is left as the day check of \<^verbatim>\<open>can_make_request\<close> left it:
  the count is not incremented, and a limiter already on day \<open>d\<close> is unchanged.  On the other
  path \<^verbatim>\<open>acquire\<close> returns and the day's count has grown by exactly one.
\<close>

theorem acquire_quota:
  "(fst (acquire d t L) = Inl QuotaExceededError \<longleftrightarrow> \<not> fst (can_make_request d L)) \<and>
   (\<not> fst (can_make_request d L) \<longrightarrow>
      snd (acquire d t L) = snd (can_make_request d L) \<and>
      cu_used (current_usage (snd (acquire d t L))) = cu_used (current_usage (rollover d L)) \<and>
      (cu_date (current_usage L) = d \<longrightarrow> snd (acquire d t L) = L)) \<and>
   (fst (can_make_request d L) \<longrightarrow>
      fst (acquire d t L) = Inr () \<and>
      cu_used (current_usage (snd (acquire d t L))) = cu_used (current_usage (rollover d L)) + 1)"
  by (auto simp add: acquire_def can_make_request_def Let_def record_request_usage
      rollover_date rollover_same_day split: prod.splits if_splits)

theorem acquire_quota_witness:
  "\<not> fst (can_make_request 19000 (limiter_at 19000 2 2)) \<and>
   fst (acquire 19000 100 (limiter_at 19000 2 2)) = Inl QuotaExceededError \<and>
   snd (acquire 19000 100 (limiter_at 19000 2 2)) = limiter_at 19000 2 2 \<and>
   fst (can_make_request 19000 (limiter_at 19000 2 1)) \<and>
   fst (acquire 19000 100 (limiter_at 19000 2 1)) = Inr () \<and>
   cu_used (current_usage (snd (acquire 19000 100 (limiter_at 19000 2 1)))) = 2"
proof -
  have a: "\<not> fst (can_make_request 19000 (limiter_at 19000 2 2))"
    by (simp add: can_make_request_def rollover_def limiter_at_def)
  have b: "fst (can_make_request 19000 (limiter_at 19000 2 1))"
    by (simp add: can_make_request_def rollover_def limiter_at_def)
  have c: "cu_date (current_usage (limiter_at 19000 2 2)) = 19000"
    by (simp add: limiter_at_def)
  have d: "cu_used (current_usage (rollover 19000 (limiter_at 19000 2 1))) = 1"
    by (simp add: rollover_def limiter_at_def)
  from acquire_quota [of 19000 100 "limiter_at 19000 2 2"] a c
  have "fst (acquire 19000 100 (limiter_at 19000 2 2)) = Inl QuotaExceededError \<and>
        snd (acquire 19000 100 (limiter_at 19000 2 2)) = limiter_at 19000 2 2"
    by blast
  moreover from acquire_quota [of 19000 100 "limiter_at 19000 2 1"] b d
  have "fst (acquire 19000 100 (limiter_at 19000 2 1)) = Inr () \<and>
        cu_used (current_usage (snd (acquire 19000 100 (limiter_at 19000 2 1)))) = 2"
    by simp
  ultimately show ?thesis using a b by blast
qed

text \<open>
  Claim C10.  \<^verbatim>\<open>record_request\<close> has no cap: on day \<open>d\<close>, with the count already at or above
  a positive \<^verbatim>\<open>daily_limit\<close>, it returns with the count one higher, now above the limit, and
  \<^verbatim>\<open>get_usage\<close> then reports a negative \<^verbatim>\<open>remaining\<close> and a \<^verbatim>\<open>percentage\<close> above 100.
\<close>

theorem record_request_no_cap:
  assumes "cu_date (current_usage L) = d"
    and "daily_limit L \<le> cu_used (current_usage L)"
    and "0 < daily_limit L"
  shows "cu_used (current_usage (record_request d t L)) = cu_used (current_usage L) + 1 \<and>
         daily_limit (record_request d t L) < cu_used (current_usage (record_request d t L)) \<and>
         (\<exists>u. fst (get_usage d (record_request d t L)) = Inr u \<and>
              ui_used u = cu_used (current_usage L) + 1 \<and>
              ui_remaining u < 0 \<and> 100 < ui_percentage u)"
proof -
  let ?S = "record_request d t L"
  have u: "cu_used (current_usage ?S) = cu_used (current_usage L) + 1"
    using assms(1) by (simp add: record_request_usage rollover_same_day)
  have dl: "daily_limit ?S = daily_limit L" by (rule record_request_daily_limit)
  have "cu_date (current_usage ?S) = d"
    by (simp add: record_request_usage rollover_date)
  then have ro: "rollover d ?S = ?S" by (rule rollover_same_day)
  have over: "daily_limit L < cu_used (current_usage L) + 1" using assms(2) by simp
  have "real_of_int (daily_limit L) < real_of_int (cu_used (current_usage L) + 1)"
    using over by linarith
  then have pc: "100 < real_of_int (cu_used (current_usage L) + 1) / real_of_int (daily_limit L) * 100"
    using assms(3) by (simp add: pos_less_divide_eq)
  show ?thesis using assms(3) over pc
    by (simp add: get_usage_def Let_def ro u dl)
qed

theorem record_request_no_cap_witness:
  "cu_used (current_usage (record_request 19000 100 (limiter_at 19000 2 2))) = 3 \<and>
   (\<exists>u. fst (get_usage 19000 (record_request 19000 100 (limiter_at 19000 2 2))) = Inr u \<and>
        ui_used u = 3 \<and> ui_remaining u < 0 \<and> 100 < ui_percentage u)"
  using record_request_no_cap [of "limiter_at 19000 2 2" 19000 100]
  by (simp add: limiter_at_def)

section \<open>Properties of error recovery\<close>

text \<open>
  Claim C9.  The back-off time is strictly increasing over attempts 1 to 5, is at least one
  second for the first attempt, and never exceeds 60 seconds.
\<close>

theorem backoff_increasing_capped:
  "calculate_backoff_time 1 < calculate_backoff_time 2 \<and>
   calculate_backoff_time 2 < calculate_backoff_time 3 \<and>
   calculate_backoff_time 3 < calculate_backoff_time 4 \<and>
   calculate_backoff_time 4 < calculate_backoff_time 5 \<and>
   1 \<le> calculate_backoff_time 1 \<and>
   calculate_backoff_time 5 \<le> 60 \<and>
   (\<forall>attempt. 1 \<le> calculate_backoff_time attempt \<and> calculate_backoff_time attempt \<le> 60)"
proof -
  have "\<And>attempt. (1::real) \<le> 2 ^ (attempt - 1)" by simp
  then show ?thesis by (simp add: calculate_backoff_time_def)
qed

section \<open>Properties of the cache store\<close>

text \<open>
  Claim C5, as amended.  \<^verbatim>\<open>store\<close> on an empty dataset returns without raising and leaves the
  database as it was.  On a dataset that is not empty and lacks one of the columns
  \<^verbatim>\<open>open\<close>, \<^verbatim>\<open>high\<close>, \<^verbatim>\<open>low\<close>, \<^verbatim>\<open>close\<close>, \<^verbatim>\<open>volume\<close> it raises \<^verbatim>\<open>ValueError\<close>, again leaving the
  database as it was.
\<close>

theorem store_rejects:
  "(frame_empty f \<longrightarrow> store now psz C symbol s e f = (Inr (), C)) \<and>
   (\<not> frame_empty f \<and> (\<exists>col \<in> set REQUIRED_COLUMNS. col \<notin> set (columns f)) \<longrightarrow>
      store now psz C symbol s e f = (Inl ValueError, C))"
  by (auto simp add: store_def REQUIRED_COLUMNS_def Let_def)

theorem store_rejects_witness:
  "frame_empty (bars []) \<and>
   store 1000 row_count empty_cache ''AAPL'' 19000 19001 (bars []) = (Inr (), empty_cache) \<and>
   \<not> frame_empty no_volume_frame \<and>
   (\<exists>col \<in> set REQUIRED_COLUMNS. col \<notin> set (columns no_volume_frame)) \<and>
   store 1000 row_count empty_cache ''AAPL'' 19000 19001 no_volume_frame =
     (Inl ValueError, empty_cache)"
proof -
  have a: "frame_empty (bars [])" by (simp add: frame_empty_def bars_def)
  have b: "\<not> frame_empty no_volume_frame" by (simp add: frame_empty_def no_volume_frame_def)
  have c: "\<exists>col \<in> set REQUIRED_COLUMNS. col \<notin> set (columns no_volume_frame)"
    by (simp add: REQUIRED_COLUMNS_def no_volume_frame_def)
  from store_rejects [of "bars []" 1000 row_count empty_cache "''AAPL''" 19000 19001] a
  have "store 1000 row_count empty_cache ''AAPL'' 19000 19001 (bars []) = (Inr (), empty_cache)"
    by blast
  moreover
  from store_rejects [of no_volume_frame 1000 row_count empty_cache "''AAPL''" 19000 19001] b c
  have "store 1000 row_count empty_cache ''AAPL'' 19000 19001 no_volume_frame =
          (Inl ValueError, empty_cache)"
    by blast
  ultimately show ?thesis using a b c by blast
qed

text \<open>
  Claim C5 as stated fails: for a dataset with a bar and no \<^verbatim>\<open>volume\<close> column, what \<^verbatim>\<open>store\<close>
  raises is not \<^verbatim>\<open>ValidationError\<close>.
\<close>

theorem store_missing_column_counterexample:
  "\<not> frame_empty no_volume_frame \<and> ''volume'' \<notin> set (columns no_volume_frame) \<and>
   fst (store 1000 row_count empty_cache ''AAPL'' 19000 19001 no_volume_frame)
     \<noteq> Inl ValidationError"
  by (simp add: store_def frame_empty_def no_volume_frame_def Let_def)

section \<open>Properties of the validator\<close>

lemma validate_data_types_loop_error:
  "validate_data_types_loop f cols = Inl e \<Longrightarrow> e = ValidationError"
  by (induction cols) (auto split: if_splits)

lemma validate_data_types_loop_ok:
  "validate_data_types_loop f cols = Inr () \<Longrightarrow> c \<in> set cols \<Longrightarrow> c \<in> set (columns f) \<Longrightarrow>
   to_numeric_ok f c"
  by (induction cols) (auto split: if_splits)

lemma validate_error: "validate f = Inl e \<Longrightarrow> e = ValidationError"
  by (auto simp add: validate_def validate_columns_def validate_data_types_def
      validate_chronological_order_def Let_def
      dest: validate_data_types_loop_error split: if_splits sum.splits option.splits)

lemma validate_result: "validate f = Inr g \<Longrightarrow> g = f"
  by (auto simp add: validate_def split: if_splits sum.splits)

lemma validate_sorted:
  "validate f = Inr g \<Longrightarrow> \<exists>ds. index_dates (rows f) = Some ds \<and> sorted ds"
  by (auto simp add: validate_def validate_chronological_order_def
      split: if_splits sum.splits option.splits)

lemma validate_unsorted:
  "index_dates (rows f) = Some ds \<Longrightarrow> \<not> sorted ds \<Longrightarrow> validate f = Inl ValidationError"
  using validate_sorted [of f] validate_error [of f]
  by (cases "validate f") auto

lemma validate_sorted_accepted:
  "index_dates (rows f) = Some ds \<Longrightarrow> sorted ds \<Longrightarrow> validate_chronological_order f = Inr ()"
  by (simp add: validate_chronological_order_def)

lemma validate_accepts:
  "index_dates (rows f) = Some ds \<Longrightarrow> sorted ds \<Longrightarrow> \<not> frame_empty f \<Longrightarrow>
   validate_columns f = Inr () \<Longrightarrow> validate_data_types f = Inr () \<Longrightarrow> validate f = Inr f"
  by (simp add: validate_def validate_chronological_order_def)

lemma validate_bars: "sorted ds \<Longrightarrow> ds \<noteq> [] \<Longrightarrow> validate (bars ds) = Inr (bars ds)"
proof -
  assume s: "sorted ds" and ne: "ds \<noteq> []"
  have i: "index_dates (map bar ds) = Some ds"
    by (induction ds) (simp_all add: bar_def)
  have n: "\<And>c. c \<in> set NUMERIC_COLUMNS \<Longrightarrow> to_numeric_ok (bars ds) c"
    by (auto simp add: to_numeric_ok_def bars_def bar_def list_all_iff NUMERIC_COLUMNS_def)
  have t: "validate_data_types (bars ds) = Inr ()"
    using n by (simp add: validate_data_types_def NUMERIC_COLUMNS_def)
  show ?thesis using s ne i t
    by (simp add: validate_def validate_columns_def validate_chronological_order_def
        frame_empty_def REQUIRED_COLUMNS_def bars_def)
qed

lemma fetch_single_symbol_invalid_data:
  assumes "fst (cache_get (now_local E) (text_between E) C symbol s e) = None"
    and "fst (can_make_request (today E) L)"
    and "provider E symbol s e = Inr f"
    and "validate f = Inl err"
  shows "fst (fetch_single_symbol E L C symbol s e) = Inl DataFetchError \<and>
         snd (snd (fetch_single_symbol E L C symbol s e)) =
           snd (cache_get (now_local E) (text_between E) C symbol s e)"
proof -
  obtain C1 where g: "cache_get (now_local E) (text_between E) C symbol s e = (None, C1)"
    using assms(1) by (cases "cache_get (now_local E) (text_between E) C symbol s e") auto
  obtain L1 where q: "can_make_request (today E) L = (True, L1)"
    using assms(2) by (cases "can_make_request (today E) L") auto
  have "err = ValidationError" using assms(4) by (rule validate_error)
  then show ?thesis using assms(3,4)
    by (simp add: fetch_single_symbol_def wrap_error_def Let_def g q)
qed

text \<open>
  Claim C6, as amended.  \<^verbatim>\<open>validate\<close> returns the dataset it was given only when every index
  label is a date and the dates are in non-decreasing order; a dataset whose dates are out
  of order is rejected, and every rejection is a \<^verbatim>\<open>ValidationError\<close>.  Non-decreasing order
  is also enough: dates in non-decreasing order, equal neighbours included, pass the
  chronological check, and the dataset is accepted when it is not empty and passes the checks
  of columns and of data types.  When the provider's dataset is rejected,
  \<^verbatim>\<open>_fetch_single_symbol\<close> raises (the error wrapped as \<^verbatim>\<open>DataFetchError\<close>) and the cache is as
  the lookup left it: nothing is stored.
\<close>

theorem validate_chronological:
  "(\<forall>g. validate f = Inr g \<longrightarrow> g = f \<and> (\<exists>ds. index_dates (rows f) = Some ds \<and> sorted ds)) \<and>
   (\<forall>ds. index_dates (rows f) = Some ds \<and> \<not> sorted ds \<longrightarrow> validate f = Inl ValidationError) \<and>
   (\<forall>ds. index_dates (rows f) = Some ds \<and> sorted ds \<longrightarrow>
      validate_chronological_order f = Inr () \<and>
      (\<not> frame_empty f \<and> validate_columns f = Inr () \<and> validate_data_types f = Inr () \<longrightarrow>
         validate f = Inr f)) \<and>
   (\<forall>err. validate f = Inl err \<longrightarrow> err = ValidationError) \<and>
   (\<forall>err. fst (cache_get (now_local E) (text_between E) C symbol s e) = None \<and>
          fst (can_make_request (today E) L) \<and>
          provider E symbol s e = Inr f \<and> validate f = Inl err \<longrightarrow>
      fst (fetch_single_symbol E L C symbol s e) = Inl DataFetchError \<and>
      snd (snd (fetch_single_symbol E L C symbol s e)) =
        snd (cache_get (now_local E) (text_between E) C symbol s e))"
  using validate_result [of f] validate_sorted [of f] validate_unsorted [of f]
    validate_sorted_accepted [of f] validate_accepts [of f]
    validate_error [of f] fetch_single_symbol_invalid_data [of E C symbol s e L f]
  by blast

theorem validate_chronological_witness:
  "validate (bars [19000, 19001]) = Inr (bars [19000, 19001]) \<and>
   index_dates (rows (bars [19000, 19001])) = Some [19000, 19001] \<and>
   sorted [19000, 19001 :: int] \<and>
   index_dates (rows (bars [19001, 19000])) = Some [19001, 19000] \<and>
   \<not> sorted [19001, 19000 :: int] \<and>
   validate (bars [19001, 19000]) = Inl ValidationError \<and>
   index_dates (rows (bars [19000, 19000])) = Some [19000, 19000] \<and>
   sorted [19000, 19000 :: int] \<and>
   validate_chronological_order (bars [19000, 19000]) = Inr () \<and>
   validate (bars [19000, 19000]) = Inr (bars [19000, 19000]) \<and>
   fst (fetch_single_symbol (example_env\<lparr>provider := unordered_provider\<rparr>)
          (limiter_at 19000 10 0) empty_cache ''AAPL'' 19000 19001) = Inl DataFetchError \<and>
   snd (snd (fetch_single_symbol (example_env\<lparr>provider := unordered_provider\<rparr>)
          (limiter_at 19000 10 0) empty_cache ''AAPL'' 19000 19001)) = empty_cache"
proof -
  let ?E = "example_env\<lparr>provider := unordered_provider\<rparr>"
  have v: "validate (bars [19000, 19001]) = Inr (bars [19000, 19001])"
    by (rule validate_bars) simp_all
  have i1: "index_dates (rows (bars [19000, 19001])) = Some [19000, 19001]"
    by (simp add: bars_def bar_def)
  have i2: "index_dates (rows (bars [19001, 19000])) = Some [19001, 19000]"
    by (simp add: bars_def bar_def)
  have ns: "\<not> sorted [19001, 19000 :: int]" by simp
  have g: "cache_get (now_local ?E) (text_between ?E) empty_cache ''AAPL'' 19000 19001 = (None, empty_cache)"
    by (simp add: cache_get_def generate_cache_key_def empty_cache_def)
  have q: "fst (can_make_request (today ?E) (limiter_at 19000 10 0))"
    by (simp add: can_make_request_def rollover_def limiter_at_def example_env_def)
  have p: "provider ?E ''AAPL'' 19000 19001 = Inr (bars [19001, 19000])"
    by (simp add: unordered_provider_def)
  note T = validate_chronological [of "bars [19001, 19000]" ?E empty_cache "''AAPL''" 19000 19001
      "limiter_at 19000 10 0"]
  from T i2 ns have bad: "validate (bars [19001, 19000]) = Inl ValidationError" by blast
  from T g q p bad
  have "fst (fetch_single_symbol ?E (limiter_at 19000 10 0) empty_cache ''AAPL'' 19000 19001)
          = Inl DataFetchError \<and>
        snd (snd (fetch_single_symbol ?E (limiter_at 19000 10 0) empty_cache ''AAPL'' 19000 19001))
          = empty_cache"
    by simp
  moreover from validate_chronological [of "bars [19000, 19001]"] v
  have "sorted [19000, 19001 :: int]" by simp
  moreover have i3: "index_dates (rows (bars [19000, 19000])) = Some [19000, 19000]"
    by (simp add: bars_def bar_def)
  moreover have s3: "sorted [19000, 19000 :: int]" by simp
  moreover have ne3: "\<not> frame_empty (bars [19000, 19000])"
    by (simp add: frame_empty_def bars_def)
  moreover have c3: "validate_columns (bars [19000, 19000]) = Inr ()"
    by (simp add: validate_columns_def REQUIRED_COLUMNS_def bars_def)
  moreover have t3: "validate_data_types (bars [19000, 19000]) = Inr ()"
    by (simp add: validate_data_types_def NUMERIC_COLUMNS_def to_numeric_ok_def bars_def bar_def)
  moreover from validate_chronological [of "bars [19000, 19000]"] i3 s3 ne3 c3 t3
  have "validate_chronological_order (bars [19000, 19000]) = Inr () \<and>
        validate (bars [19000, 19000]) = Inr (bars [19000, 19000])"
    by blast
  ultimately show ?thesis using v i1 i2 ns bad by blast
qed

text \<open>
  Claim C6 as stated fails: a dataset with two rows of the same date is not in strictly
  increasing order, and \<^verbatim>\<open>validate\<close> accepts it.
\<close>

theorem validate_duplicate_dates_counterexample:
  "index_dates (rows (bars [19000, 19000])) = Some [19000, 19000] \<and>
   validate (bars [19000, 19000]) = Inr (bars [19000, 19000])"
  by (simp add: validate_def validate_columns_def validate_data_types_def
      validate_chronological_order_def frame_empty_def to_numeric_ok_def
      REQUIRED_COLUMNS_def NUMERIC_COLUMNS_def bars_def bar_def)

section \<open>Properties of the freshness manager\<close>

text \<open>
  Claim C8.  Without a metadata row for the range, \<^verbatim>\<open>get_cache_age\<close> is infinite and
  \<^verbatim>\<open>is_data_fresh\<close> is false whatever the threshold.  With \<^verbatim>\<open>threshold_minutes=None\<close>,
  \<^verbatim>\<open>is_data_fresh\<close> compares the age with 1440 when the exchange-local present is a Saturday or
  Sunday, with 5 when it is a weekday between 09:30 and 16:00, and with 240 otherwise.
\<close>

theorem absent_metadata_is_stale:
  "(get_metadata C symbol s e = None \<longrightarrow>
      get_cache_age E C symbol s e = Infinite \<and>
      (\<forall>thr. \<not> is_data_fresh E fm C symbol s e thr)) \<and>
   is_data_fresh E (init_freshness_manager tz) C symbol s e None =
     age_le (get_cache_age E C symbol s e)
       (if 5 \<le> weekday (now_in E tz) then 1440
        else if time_le (9, 30, 0, 0) (time_of (now_in E tz)) \<and>
                time_le (time_of (now_in E tz)) (16, 0, 0, 0) then 5
        else 240)"
  by (simp add: get_cache_age_def is_data_fresh_def get_adaptive_threshold_def
      is_weekend_def is_market_open_def localize_def astimezone_def
      init_freshness_manager_def Let_def)

theorem absent_metadata_is_stale_witness:
  "get_metadata empty_cache ''AAPL'' 19000 19001 = None \<and>
   get_cache_age example_env empty_cache ''AAPL'' 19000 19001 = Infinite \<and>
   \<not> is_data_fresh example_env (init_freshness_manager ''US/Eastern'') empty_cache
       ''AAPL'' 19000 19001 (Some 1000000) \<and>
   \<not> is_data_fresh example_env (init_freshness_manager ''US/Eastern'') empty_cache
       ''AAPL'' 19000 19001 None"
proof -
  have h: "get_metadata empty_cache ''AAPL'' 19000 19001 = None"
    by (simp add: get_metadata_def empty_cache_def)
  from absent_metadata_is_stale [of empty_cache "''AAPL''" 19000 19001 example_env
      "init_freshness_manager ''US/Eastern''"] h
  show ?thesis by blast
qed

section \<open>Properties of the acquisition orchestrator\<close>

subsection \<open>The cache lookup of the single-symbol fetch\<close>

lemma stale_cache_tables:
  "metadata_table stale_cache (''AAPL'', 19000, 19001) =
     Some \<lparr>md_symbol = ''AAPL'', md_start_date = 19000, md_end_date = 19001, record_count = 2,
           data_size_bytes = 2, md_created_at = 0, md_last_accessed = 0\<rparr>"
  "stock_table stale_cache =
     [((''AAPL'', Stamp 19000),
       \<lparr>open_price = 100, high_price = 105, low_price = 99, close_price = 103,
        volume = 1000000, sd_created_at = 0\<rparr>),
      ((''AAPL'', Stamp 19001),
       \<lparr>open_price = 100, high_price = 105, low_price = 99, close_price = 103,
        volume = 1000000, sd_created_at = 0\<rparr>)]"
  by (simp_all add: stale_cache_def store_def frame_empty_def bars_def bar_def Let_def
      py_float_def py_int_def row_get_def py_trunc_def generate_cache_key_def empty_cache_def
      row_count_def sqlite_integer_def)

lemma stale_cache_get:
  "fst (cache_get 864000 b stale_cache ''AAPL'' 19000 19001) = Some (bars [19000, 19001])"
  by (simp add: cache_get_def generate_cache_key_def stale_cache_tables Let_def
      select_range_def record_to_row_def bars_def bar_def)

text \<open>
  Claim C1 fails on the code.  The range (AAPL, 19000, 19001) was stored at clock 0 and is
  read 864000 seconds later: its age is 14400 minutes, above every adaptive threshold, so
  the freshness manager reports it as not fresh.  Both fetch functions still return the
  cached dataset from their first step, with the limiter untouched and the provider (here
  unreachable) not consulted.
\<close>

theorem stale_cache_served:
  "get_cache_age stale_env stale_cache ''AAPL'' 19000 19001 = Minutes 14400 \<and>
   \<not> is_data_fresh stale_env (init_freshness_manager ''US/Eastern'') stale_cache
       ''AAPL'' 19000 19001 None \<and>
   fst (fetch_single_symbol stale_env (limiter_at 19000 10 0) stale_cache ''AAPL'' 19000 19001)
     = Inr (bars [19000, 19001]) \<and>
   fst (snd (fetch_single_symbol stale_env (limiter_at 19000 10 0) stale_cache
       ''AAPL'' 19000 19001)) = limiter_at 19000 10 0 \<and>
   fst (fetch_historical_data stale_env (limiter_at 19000 10 0) stale_cache ''AAPL'' 19000 19001)
     = Inr (bars [19000, 19001]) \<and>
   fst (snd (fetch_historical_data stale_env (limiter_at 19000 10 0) stale_cache
       ''AAPL'' 19000 19001)) = limiter_at 19000 10 0"
proof -
  let ?fm = "init_freshness_manager ''US/Eastern''"
  have age: "get_cache_age stale_env stale_cache ''AAPL'' 19000 19001 = Minutes 14400"
    by (simp add: get_cache_age_def get_metadata_def generate_cache_key_def stale_cache_tables
        stale_env_def example_env_def Let_def)
  have thr: "get_adaptive_threshold stale_env ?fm \<le> 1440"
    by (simp add: get_adaptive_threshold_def init_freshness_manager_def Let_def)
  have stale: "\<not> is_data_fresh stale_env ?fm stale_cache ''AAPL'' 19000 19001 None"
    using thr by (simp add: is_data_fresh_def age Let_def)
  obtain C1 where g: "cache_get (now_local stale_env) (text_between stale_env) stale_cache ''AAPL'' 19000 19001 =
      (Some (bars [19000, 19001]), C1)"
    using stale_cache_get [of "text_between stale_env"]
    by (cases "cache_get (now_local stale_env) (text_between stale_env) stale_cache ''AAPL'' 19000 19001")
       (simp add: stale_env_def example_env_def)
  have b: "fetch_single_symbol stale_env (limiter_at 19000 10 0) stale_cache ''AAPL'' 19000 19001
      = (Inr (bars [19000, 19001]), limiter_at 19000 10 0, C1)"
    by (simp add: fetch_single_symbol_def g)
  have f: "fetch_historical_data stale_env (limiter_at 19000 10 0) stale_cache ''AAPL'' 19000 19001
      = (Inr (bars [19000, 19001]), limiter_at 19000 10 0, C1)"
    by (simp add: fetch_historical_data_def g is_fresh_cached_def)
  show ?thesis using age stale b f by simp
qed

text \<open>
  What the first step does in general: a cache hit is returned as it is, whatever its age,
  and costs no quota.
\<close>

lemma fetch_single_symbol_cache_hit:
  "cache_get (now_local E) (text_between E) C symbol s e = (Some d, C1) \<Longrightarrow>
   fetch_single_symbol E L C symbol s e = (Inr d, L, C1) \<and>
   fetch_historical_data E L C symbol s e = (Inr d, L, C1)"
  by (simp add: fetch_single_symbol_def fetch_historical_data_def is_fresh_cached_def)

subsection \<open>Batch sizing\<close>

text \<open>
  With the count at or below a non-zero limit, the batch size is the minimum of the number
  of symbols and the remaining quota, raised to 1 when quota remains and the list is empty;
  with no quota left it is 0 and the batch fetch raises \<^verbatim>\<open>QuotaExceededError\<close> at once.
\<close>

lemma calculate_optimal_batch_size_in_quota:
  assumes "cu_date (current_usage L) = today E"
    and "daily_limit L \<noteq> 0"
    and "cu_used (current_usage L) \<le> daily_limit L"
  shows "calculate_optimal_batch_size E L symbols =
           (Inr (let remaining = daily_limit L - cu_used (current_usage L);
                     m = min (int (length symbols)) remaining
                 in if 0 < remaining \<and> m = 0 then 1 else m), L)"
    and "cu_used (current_usage L) = daily_limit L \<Longrightarrow>
           calculate_optimal_batch_size E L symbols = (Inr 0, L) \<and>
           fetch_multiple_symbols E L C symbols s e = (Inl QuotaExceededError, L, C)"
  using assms
  by (auto simp add: calculate_optimal_batch_size_def fetch_multiple_symbols_def get_usage_def
      rollover_same_day Let_def)

lemma batch_size_example:
  "calculate_optimal_batch_size example_env (limiter_at 19000 10 7) five_symbols =
     (Inr 3, limiter_at 19000 10 7)"
  by (simp add: calculate_optimal_batch_size_def get_usage_def rollover_def Let_def
      limiter_at_def example_env_def five_symbols_def)

lemma over_quota_fetch:
  "fetch_single_symbol example_env (limiter_at 19000 3 5) empty_cache symbol 19000 19001 =
     (Inl QuotaExceededError, limiter_at 19000 3 5, empty_cache)"
  by (simp add: fetch_single_symbol_def cache_get_def generate_cache_key_def empty_cache_def
      can_make_request_def rollover_def limiter_at_def example_env_def Let_def)

text \<open>
  Claim C4 fails on the code once the count is above the limit.  With a limit of 3 and 5
  requests recorded no quota remains, yet the batch size for five symbols is -2, not 0;
  \<^verbatim>\<open>fetch_multiple_symbols\<close> does not raise \<^verbatim>\<open>QuotaExceededError\<close> but runs its loop over
  \<^verbatim>\<open>symbols[:-2]\<close> and returns an empty result.
\<close>

theorem batch_size_over_quota:
  "fst (calculate_optimal_batch_size example_env (limiter_at 19000 3 5) five_symbols)
     = Inr (- 2) \<and>
   slice_to five_symbols (- 2) = [''AAPL'', ''MSFT'', ''GOOGL''] \<and>
   fetch_multiple_symbols example_env (limiter_at 19000 3 5) empty_cache five_symbols 19000 19001 =
     (Inr Map.empty, limiter_at 19000 3 5, empty_cache)"
proof -
  have size: "calculate_optimal_batch_size example_env (limiter_at 19000 3 5) five_symbols =
        (Inr (- 2), limiter_at 19000 3 5)"
    by (simp add: calculate_optimal_batch_size_def get_usage_def rollover_def Let_def
        limiter_at_def example_env_def five_symbols_def)
  have slice: "slice_to five_symbols (- 2) = [''AAPL'', ''MSFT'', ''GOOGL'']"
    by (simp add: slice_to_def five_symbols_def)
  have loop: "fetch_loop example_env 19000 19001 [''AAPL'', ''MSFT'', ''GOOGL'']
                (limiter_at 19000 3 5) empty_cache Map.empty =
              (Map.empty, limiter_at 19000 3 5, empty_cache)"
    by (simp add: over_quota_fetch)
  have "fetch_multiple_symbols example_env (limiter_at 19000 3 5) empty_cache five_symbols
          19000 19001 = (Inr Map.empty, limiter_at 19000 3 5, empty_cache)"
    unfolding fetch_multiple_symbols_def size by (simp add: slice loop del: fetch_loop.simps)
  then show ?thesis using size slice by simp
qed

subsection \<open>The batch loop\<close>

lemma to_datetime_None_iff:
  "to_datetime rs = None \<longleftrightarrow> (\<exists>sy x r. ((sy, NonDate x), r) \<in> set rs)"
  by (induction rs rule: to_datetime.induct) auto

lemma index_dates_stamps:
  "index_dates rs = Some ds \<Longrightarrow> (l, r) \<in> set rs \<Longrightarrow> \<exists>d. l = Stamp d"
  by (induction rs arbitrary: ds rule: index_dates.induct) auto

lemma validate_stamps:
  "validate f = Inr g \<Longrightarrow> (l, r) \<in> set (rows f) \<Longrightarrow> \<exists>d. l = Stamp d"
  using validate_sorted [of f g] index_dates_stamps [of "rows f"] by blast

lemma cache_hit_iff:
  "cache_hit E C s e x \<longleftrightarrow>
     generate_cache_key x s e \<in> dom (metadata_table C) \<and>
     (\<exists>lbl. (x, lbl) \<in> fst ` set (stock_table C) \<and> in_range (text_between E) s e lbl) \<and>
     (\<forall>t. (x, NonDate t) \<in> fst ` set (stock_table C) \<longrightarrow> \<not> text_between E t s e)"
proof (cases "metadata_table C (generate_cache_key x s e)")
  case None
  then show ?thesis by (auto simp add: cache_hit_def cache_get_def)
next
  case (Some md)
  let ?P = "\<lambda>((sy, lbl), r). sy = x \<and> in_range (text_between E) s e lbl"
  let ?recs = "filter ?P (stock_table C)"
  have hit: "cache_hit E C s e x \<longleftrightarrow> ?recs \<noteq> [] \<and> to_datetime ?recs \<noteq> None"
    using Some
    by (auto simp add: cache_hit_def cache_get_def select_range_def Let_def split: option.splits)
  have ne: "?recs \<noteq> [] \<longleftrightarrow>
      (\<exists>lbl. (x, lbl) \<in> fst ` set (stock_table C) \<and> in_range (text_between E) s e lbl)"
    by (force simp add: filter_empty_conv)
  have td: "to_datetime ?recs = None \<longleftrightarrow>
      (\<exists>t. (x, NonDate t) \<in> fst ` set (stock_table C) \<and> text_between E t s e)"
    unfolding to_datetime_None_iff by force
  show ?thesis using Some hit ne td by auto
qed

lemma store_rows_keys:
  "store_rows now symbol rs tbl n = Inr (tbl', n') \<Longrightarrow>
   fst ` set tbl' = fst ` set tbl \<union> (\<lambda>(l, r). (symbol, l)) ` set rs"
proof (induction rs arbitrary: tbl n)
  case Nil
  then show ?case by simp
next
  case (Cons a rs)
  obtain l r where a: "a = (l, r)" by (cases a)
  from Cons.prems obtain row where
    rest: "store_rows now symbol rs (AList.update (symbol, l) row tbl) (n + 1) = Inr (tbl', n')"
    by (auto simp add: a Let_def split: sum.splits if_splits)
  from Cons.IH [OF rest] show ?case
    by (auto simp add: a dom_update)
qed

lemma store_rows_independent:
  "isl (store_rows now symbol rs tbl n) = isl (store_rows now' symbol' rs tbl' n')"
proof (induction rs arbitrary: tbl n tbl' n')
  case Nil
  then show ?case by simp
next
  case (Cons a rs)
  obtain l r where a: "a = (l, r)" by (cases a)
  show ?case
    using Cons.IH by (simp add: a Let_def split: sum.splits)
qed


lemma cache_get_view:
  "stock_table (snd (cache_get now b C x s e)) = stock_table C \<and>
   dom (metadata_table (snd (cache_get now b C x s e))) = dom (metadata_table C)"
  by (auto simp add: cache_get_def Let_def split: option.splits)

lemma cache_hit_after_get:
  "cache_hit E (snd (cache_get now b C y s e)) s e x = cache_hit E C s e x"
  by (simp add: cache_hit_iff cache_get_view)

lemma store_validated:
  assumes v: "validate f = Inr f"
    and st: "store now psz C symbol s e f = (r, C')"
  shows "isl r = isl (store_rows now symbol (rows f) [] 0)"
    and "isl r \<Longrightarrow> C' = C"
    and "\<not> isl r \<Longrightarrow>
           dom (metadata_table C') = insert (generate_cache_key symbol s e) (dom (metadata_table C)) \<and>
           fst ` set (stock_table C') =
             fst ` set (stock_table C) \<union> (\<lambda>(l, r). (symbol, l)) ` set (rows f)"
proof -
  have ne: "\<not> frame_empty f" using v by (auto simp add: validate_def split: if_splits)
  have cols: "filter (\<lambda>col. col \<notin> set (columns f)) [''open'', ''high'', ''low'', ''close'', ''volume''] = []"
    using v by (auto simp add: validate_def validate_columns_def Let_def REQUIRED_COLUMNS_def
        split: if_splits sum.splits)
  have ind: "isl (store_rows now symbol (rows f) (stock_table C) 0) =
             isl (store_rows now symbol (rows f) [] 0)"
    by (rule store_rows_independent)
  show "isl r = isl (store_rows now symbol (rows f) [] 0)"
    using st ne cols ind
    by (auto simp add: store_def Let_def split: sum.splits prod.splits)
  show "isl r \<Longrightarrow> C' = C"
    using st ne cols by (auto simp add: store_def Let_def split: sum.splits prod.splits)
  show "\<not> isl r \<Longrightarrow>
           dom (metadata_table C') = insert (generate_cache_key symbol s e) (dom (metadata_table C)) \<and>
           fst ` set (stock_table C') =
             fst ` set (stock_table C) \<union> (\<lambda>(l, r). (symbol, l)) ` set (rows f)"
  proof -
    assume ok: "\<not> isl r"
    obtain tbl n where sr: "store_rows now symbol (rows f) (stock_table C) 0 = Inr (tbl, n)"
      using st ne cols ok
      by (cases "store_rows now symbol (rows f) (stock_table C) 0")
         (auto simp add: store_def Let_def)
    have tb: "stock_table C' = tbl"
      and md: "dom (metadata_table C') =
                 insert (generate_cache_key symbol s e) (dom (metadata_table C))"
      using st ne cols sr by (auto simp add: store_def Let_def)
    show ?thesis using md store_rows_keys [OF sr] by (simp add: tb)
  qed
qed

lemma fetchable_iff:
  "fetchable E s e symbol \<longleftrightarrow>
     (\<exists>f. provider E symbol s e = Inr f \<and> validate f = Inr f \<and>
          \<not> isl (store_rows (now_local E) symbol (rows f) [] 0))"
proof (cases "provider E symbol s e")
  case (Inl err)
  then show ?thesis by (simp add: fetchable_def)
next
  case (Inr f)
  have "\<not> isl (validate f) \<longleftrightarrow> validate f = Inr f"
    using validate_result [of f] by (cases "validate f") auto
  then show ?thesis using Inr by (simp add: fetchable_def)
qed

text \<open>The effect of a store of validated data on the lookups.\<close>

lemma cache_hit_after_store:
  assumes v: "validate f = Inr f"
    and st: "store now psz C y s e f = (Inr u, C')"
  shows "cache_hit E C s e x \<Longrightarrow> cache_hit E C' s e x"
    and "cache_hit E C' s e x \<Longrightarrow> x \<noteq> y \<Longrightarrow> cache_hit E C s e x"
proof -
  have nl: "\<not> isl (Inr u :: error + unit)" by simp
  note eff = store_validated(3) [OF v st nl]
  have md: "dom (metadata_table C') = insert (generate_cache_key y s e) (dom (metadata_table C))"
    and keys: "fst ` set (stock_table C') =
             fst ` set (stock_table C) \<union> (\<lambda>(l, r). (y, l)) ` set (rows f)"
    using eff by simp_all
  have stamps: "\<And>l r. (l, r) \<in> set (rows f) \<Longrightarrow> \<exists>d. l = Stamp d"
    using validate_stamps [OF v] by blast
  have nd: "\<And>t z. (z, NonDate t) \<in> fst ` set (stock_table C') \<longleftrightarrow>
                   (z, NonDate t) \<in> fst ` set (stock_table C)"
    unfolding keys using stamps by fastforce
  have other: "\<And>lbl. x \<noteq> y \<Longrightarrow> (x, lbl) \<in> fst ` set (stock_table C') \<longleftrightarrow>
                   (x, lbl) \<in> fst ` set (stock_table C)"
    unfolding keys by auto
  show "cache_hit E C s e x \<Longrightarrow> cache_hit E C' s e x"
    unfolding cache_hit_iff nd md using keys by blast
  show "cache_hit E C' s e x \<Longrightarrow> x \<noteq> y \<Longrightarrow> cache_hit E C s e x"
    unfolding cache_hit_iff nd md using other by (auto simp add: generate_cache_key_def)
qed

text \<open>
  One fetch, in any state of the quota: lookups that hit keep hitting, a new hit is one for
  the symbol just fetched from the provider, and the fetch returns only on a hit or with
  valid, storable data from the provider.
\<close>

lemma fetch_single_symbol_cache:
  "\<exists>r L' C'. fetch_single_symbol E L C y s e = (r, L', C') \<and>
     (\<forall>x. cache_hit E C s e x \<longrightarrow> cache_hit E C' s e x) \<and>
     (\<forall>x. cache_hit E C' s e x \<longrightarrow> cache_hit E C s e x \<or> (x = y \<and> fetchable E s e y)) \<and>
     (\<not> isl r \<longrightarrow> cache_hit E C s e y \<or> fetchable E s e y)"
proof -
  obtain cached C1 where g: "cache_get (now_local E) (text_between E) C y s e = (cached, C1)"
    by (cases "cache_get (now_local E) (text_between E) C y s e")
  have same: "\<And>x. cache_hit E C1 s e x = cache_hit E C s e x"
    using cache_hit_after_get [of E "now_local E" "text_between E" C y s e] g by simp
  obtain ok L1 where q: "can_make_request (today E) L = (ok, L1)"
    by (cases "can_make_request (today E) L")
  show ?thesis
  proof (cases cached)
    case (Some d)
    have hit: "cache_hit E C s e y" using g Some by (simp add: cache_hit_def)
    have "fetch_single_symbol E L C y s e = (Inr d, L, C1)"
      using g Some by (simp add: fetch_single_symbol_def)
    then show ?thesis using hit same by auto
  next
    case None
    show ?thesis
    proof (cases ok)
      case False
      have "fetch_single_symbol E L C y s e = (Inl QuotaExceededError, L1, C1)"
        using g None q False by (simp add: fetch_single_symbol_def)
      then show ?thesis using same by auto
    next
      case True
      show ?thesis
      proof (cases "provider E y s e")
        case (Inl err)
        have "fetch_single_symbol E L C y s e = (Inl (wrap_error err), L1, C1)"
          using g None q True Inl by (simp add: fetch_single_symbol_def)
        then show ?thesis using same by auto
      next
        case (Inr f)
        let ?L2 = "record_request (today E) (time_time E) L1"
        show ?thesis
        proof (cases "validate f")
          case (Inl err)
          have "fetch_single_symbol E L C y s e = (Inl (wrap_error err), ?L2, C1)"
            using g None q True Inr Inl by (simp add: fetch_single_symbol_def)
          then show ?thesis using same by auto
        next
          case (Inr v)
          have vf: "validate f = Inr f" using Inr validate_result [of f v] by simp
          obtain r C2 where st: "store (now_local E) (pickle_size E) C1 y s e f = (r, C2)"
            by (cases "store (now_local E) (pickle_size E) C1 y s e f")
          show ?thesis
          proof (cases r)
            case (Inl err)
            have c2: "C2 = C1" using store_validated(2) [OF vf st] Inl by simp
            have "fetch_single_symbol E L C y s e = (Inl (wrap_error err), ?L2, C1)"
              using g None q True \<open>provider E y s e = Inr f\<close> vf st Inl c2
              by (simp add: fetch_single_symbol_def)
            then show ?thesis using same by auto
          next
            case (Inr u)
            have res: "fetch_single_symbol E L C y s e = (Inr f, ?L2, C2)"
              using g None q True \<open>provider E y s e = Inr f\<close> vf st Inr
              by (simp add: fetch_single_symbol_def)
            have "\<not> isl (store_rows (now_local E) y (rows f) [] 0)"
              using store_validated(1) [OF vf st] Inr by simp
            then have good: "fetchable E s e y"
              using \<open>provider E y s e = Inr f\<close> vf by (auto simp add: fetchable_iff)
            have st': "store (now_local E) (pickle_size E) C1 y s e f = (Inr u, C2)"
              using st Inr by simp
            have m: "\<And>x. cache_hit E C s e x \<Longrightarrow> cache_hit E C2 s e x"
              using cache_hit_after_store(1) [OF vf st'] same by blast
            have o: "\<And>x. cache_hit E C2 s e x \<Longrightarrow> cache_hit E C s e x \<or> (x = y \<and> fetchable E s e y)"
              using cache_hit_after_store(2) [OF vf st'] same good by blast
            show ?thesis using res m o good by auto
          qed
        qed
      qed
    qed
  qed
qed


lemma record_request_same_day:
  "cu_date (current_usage L) = d \<Longrightarrow>
   cu_date (current_usage (record_request d t L)) = d \<and>
   cu_used (current_usage (record_request d t L)) = cu_used (current_usage L) + 1 \<and>
   daily_limit (record_request d t L) = daily_limit L"
  by (simp add: record_request_def save_daily_usage_def Let_def rollover_same_day)

text \<open>
  One fetch inside the quota: the day and the limit stay, the count grows by at most one, and
  the fetch returns exactly on a hit or with valid, storable data from the provider.
\<close>

lemma fetch_single_symbol_in_quota:
  assumes day: "cu_date (current_usage L) = today E"
    and quota: "cu_used (current_usage L) < daily_limit L"
  shows "\<exists>r L' C'. fetch_single_symbol E L C y s e = (r, L', C') \<and>
           cu_date (current_usage L') = today E \<and>
           daily_limit L' = daily_limit L \<and>
           cu_used (current_usage L') \<le> cu_used (current_usage L) + 1 \<and>
           (\<not> isl r \<longleftrightarrow> cache_hit E C s e y \<or> fetchable E s e y)"
proof -
  obtain cached C1 where g: "cache_get (now_local E) (text_between E) C y s e = (cached, C1)"
    by (cases "cache_get (now_local E) (text_between E) C y s e")
  have q: "can_make_request (today E) L = (True, L)"
    using day quota by (simp add: can_make_request_def rollover_same_day)
  let ?L2 = "record_request (today E) (time_time E) L"
  note L2 = record_request_same_day [OF day, of "time_time E"]
  show ?thesis
  proof (cases cached)
    case (Some d)
    have hit: "cache_hit E C s e y" using g Some by (simp add: cache_hit_def)
    have "fetch_single_symbol E L C y s e = (Inr d, L, C1)"
      using g Some by (simp add: fetch_single_symbol_def)
    then show ?thesis using hit day by auto
  next
    case None
    have miss: "\<not> cache_hit E C s e y" using g None by (simp add: cache_hit_def)
    show ?thesis
    proof (cases "provider E y s e")
      case (Inl err)
      have "fetch_single_symbol E L C y s e = (Inl (wrap_error err), L, C1)"
        using g None q Inl by (simp add: fetch_single_symbol_def)
      moreover have "\<not> fetchable E s e y" using Inl by (simp add: fetchable_def)
      ultimately show ?thesis using miss day by auto
    next
      case (Inr f)
      show ?thesis
      proof (cases "validate f")
        case (Inl err)
        have "fetch_single_symbol E L C y s e = (Inl (wrap_error err), ?L2, C1)"
          using g None q Inr Inl by (simp add: fetch_single_symbol_def)
        moreover have "\<not> fetchable E s e y" using Inr Inl by (simp add: fetchable_def)
        ultimately show ?thesis using miss L2 by auto
      next
        case (Inr v)
        have vf: "validate f = Inr f" using Inr validate_result [of f v] by simp
        obtain r C2 where st: "store (now_local E) (pickle_size E) C1 y s e f = (r, C2)"
          by (cases "store (now_local E) (pickle_size E) C1 y s e f")
        have sr: "isl r = isl (store_rows (now_local E) y (rows f) [] 0)"
          by (rule store_validated(1) [OF vf st])
        have fe: "fetchable E s e y \<longleftrightarrow> \<not> isl r"
          using \<open>provider E y s e = Inr f\<close> vf sr by (simp add: fetchable_def)
        show ?thesis
        proof (cases r)
          case (Inl err)
          have "fetch_single_symbol E L C y s e = (Inl (wrap_error err), ?L2, C2)"
            using g None q \<open>provider E y s e = Inr f\<close> vf st Inl
            by (simp add: fetch_single_symbol_def)
          then show ?thesis using miss fe Inl L2 by auto
        next
          case (Inr u)
          have "fetch_single_symbol E L C y s e = (Inr f, ?L2, C2)"
            using g None q \<open>provider E y s e = Inr f\<close> vf st Inr
            by (simp add: fetch_single_symbol_def)
          then show ?thesis using fe Inr L2 by auto
        qed
      qed
    qed
  qed
qed

text \<open>The keys of the loop's result, in any state of the quota and inside the quota.\<close>

lemma fetch_loop_origin:
  assumes "\<forall>x. cache_hit E C s e x \<longrightarrow> P x"
    and "\<forall>x. fetchable E s e x \<longrightarrow> P x"
  shows "dom (fst (fetch_loop E s e symbols L C results)) \<subseteq>
           dom results \<union> {x \<in> set symbols. P x}"
  using assms
proof (induction symbols arbitrary: L C results)
  case Nil
  then show ?case by simp
next
  case (Cons y rest)
  obtain r L' C' where step: "fetch_single_symbol E L C y s e = (r, L', C')"
    and new: "\<forall>x. cache_hit E C' s e x \<longrightarrow> cache_hit E C s e x \<or> (x = y \<and> fetchable E s e y)"
    and ret: "\<not> isl r \<longrightarrow> cache_hit E C s e y \<or> fetchable E s e y"
    using fetch_single_symbol_cache [of E L C y s e] by blast
  have inv: "\<forall>x. cache_hit E C' s e x \<longrightarrow> P x"
    using new Cons.prems by blast
  note IH = Cons.IH [OF inv Cons.prems(2)]
  show ?case
  proof (cases r)
    case (Inl err)
    have u: "fetch_loop E s e (y # rest) L C results = fetch_loop E s e rest L' C' results"
      using step Inl by simp
    show ?thesis unfolding u using IH [of L' results] by auto
  next
    case (Inr d)
    have u: "fetch_loop E s e (y # rest) L C results =
          fetch_loop E s e rest L' C' (results(y \<mapsto> d))"
      using step Inr by simp
    have py: "P y" using ret Inr Cons.prems by auto
    have d: "dom (results(y \<mapsto> d)) = insert y (dom results)"
      by (simp only: dom_fun_upd option.distinct if_False)
    have "dom (fst (fetch_loop E s e rest L' C' (results(y \<mapsto> d)))) \<subseteq>
            insert y (dom results) \<union> {x \<in> set rest. P x}"
      using IH [of L' "results(y \<mapsto> d)"] unfolding d .
    also have "\<dots> \<subseteq> dom results \<union> {x \<in> set (y # rest). P x}"
      using py by auto
    finally show ?thesis unfolding u .
  qed
qed

lemma fetch_loop_exact:
  assumes "cu_date (current_usage L) = today E"
    and "cu_used (current_usage L) + int (length symbols) \<le> daily_limit L"
    and "\<forall>x. cache_hit E C s e x \<longrightarrow> P x"
    and "\<forall>x. fetchable E s e x \<longrightarrow> P x"
    and "\<forall>x. P x \<longrightarrow> cache_hit E C s e x \<or> fetchable E s e x"
  shows "dom (fst (fetch_loop E s e symbols L C results)) =
           dom results \<union> {x \<in> set symbols. P x}"
  using assms
proof (induction symbols arbitrary: L C results)
  case Nil
  then show ?case by simp
next
  case (Cons y rest)
  have quota: "cu_used (current_usage L) < daily_limit L" using Cons.prems(2) by simp
  obtain r L' C' where step: "fetch_single_symbol E L C y s e = (r, L', C')"
    and day': "cu_date (current_usage L') = today E"
    and lim': "daily_limit L' = daily_limit L"
    and used': "cu_used (current_usage L') \<le> cu_used (current_usage L) + 1"
    and ret: "\<not> isl r \<longleftrightarrow> cache_hit E C s e y \<or> fetchable E s e y"
    using fetch_single_symbol_in_quota [OF Cons.prems(1) quota, of C y s e] by blast
  obtain r0 L0 C0 where step0: "fetch_single_symbol E L C y s e = (r0, L0, C0)"
    and keep0: "\<forall>x. cache_hit E C s e x \<longrightarrow> cache_hit E C0 s e x"
    and new0: "\<forall>x. cache_hit E C0 s e x \<longrightarrow> cache_hit E C s e x \<or> (x = y \<and> fetchable E s e y)"
    using fetch_single_symbol_cache [of E L C y s e] by blast
  have c0: "C0 = C'" using step step0 by simp
  have keep: "\<forall>x. cache_hit E C s e x \<longrightarrow> cache_hit E C' s e x" using keep0 c0 by simp
  have new: "\<forall>x. cache_hit E C' s e x \<longrightarrow> cache_hit E C s e x \<or> (x = y \<and> fetchable E s e y)"
    using new0 c0 by simp
  have quota': "cu_used (current_usage L') + int (length rest) \<le> daily_limit L'"
    using Cons.prems(2) used' lim' by simp
  have i1: "\<forall>x. cache_hit E C' s e x \<longrightarrow> P x" using new Cons.prems(3,4) by blast
  have i3: "\<forall>x. P x \<longrightarrow> cache_hit E C' s e x \<or> fetchable E s e x"
    using keep Cons.prems(5) by blast
  note IH = Cons.IH [OF day' quota' i1 Cons.prems(4) i3]
  have py: "P y \<longleftrightarrow> \<not> isl r" using ret Cons.prems(3,4,5) by blast
  show ?case
  proof (cases r)
    case (Inl err)
    have u: "fetch_loop E s e (y # rest) L C results = fetch_loop E s e rest L' C' results"
      using step Inl by simp
    have "dom (fst (fetch_loop E s e (y # rest) L C results)) =
               dom results \<union> {x \<in> set rest. P x}"
      unfolding u by (rule IH)
    also have "\<dots> = dom results \<union> {x \<in> set (y # rest). P x}"
      using py Inl by auto
    finally show ?thesis .
  next
    case (Inr d)
    have u: "fetch_loop E s e (y # rest) L C results =
          fetch_loop E s e rest L' C' (results(y \<mapsto> d))"
      using step Inr by simp
    have "dom (fst (fetch_loop E s e (y # rest) L C results)) =
               dom (results(y \<mapsto> d)) \<union> {x \<in> set rest. P x}"
      unfolding u by (rule IH)
    also have "\<dots> = insert y (dom results) \<union> {x \<in> set rest. P x}"
      by (simp only: dom_fun_upd option.distinct if_False)
    also have "\<dots> = dom results \<union> {x \<in> set (y # rest). P x}"
      using py Inr by auto
    finally show ?thesis .
  qed
qed

lemma slice_to_subset: "set (slice_to xs n) \<subseteq> set xs"
  by (simp add: slice_to_def set_take_subset)

lemma fetch_multiple_symbols_origin:
  assumes "fetch_multiple_symbols E L C symbols s e = (Inr results, L', C')"
    and "symbol \<in> dom results"
  shows "symbol \<in> set symbols \<and> (cache_hit E C s e symbol \<or> fetchable E s e symbol)"
proof -
  obtain n L1 where size: "calculate_optimal_batch_size E L symbols = (Inr n, L1)"
    using assms(1)
    by (cases "calculate_optimal_batch_size E L symbols")
       (auto simp add: fetch_multiple_symbols_def split: sum.splits)
  have "results = fst (fetch_loop E s e (slice_to symbols n) L1 C Map.empty)"
    using assms(1) unfolding fetch_multiple_symbols_def size
    by (auto simp add: Let_def split: if_splits prod.splits)
  then have "symbol \<in> {x \<in> set (slice_to symbols n).
       cache_hit E C s e x \<or> fetchable E s e x}"
    using fetch_loop_origin [of E C s e "\<lambda>x. cache_hit E C s e x \<or> fetchable E s e x"
        "slice_to symbols n" L1 Map.empty] assms(2) by auto
  then show ?thesis using slice_to_subset [of symbols n] by auto
qed

lemma fetch_multiple_symbols_exact:
  assumes limit: "daily_limit L \<noteq> 0"
    and some: "0 < daily_limit L - cu_used (current_usage (rollover (today E) L))"
  shows "\<exists>results L' C'.
           fetch_multiple_symbols E L C symbols s e = (Inr results, L', C') \<and>
           dom results =
             {symbol \<in> set (take (nat (daily_limit L -
                                        cu_used (current_usage (rollover (today E) L)))) symbols).
                cache_hit E C s e symbol \<or> fetchable E s e symbol}"
proof -
  let ?L1 = "rollover (today E) L"
  let ?rem = "daily_limit L - cu_used (current_usage ?L1)"
  let ?n = "int (length symbols)"
  let ?b = "if min ?n ?rem = 0 then 1 else min ?n ?rem"
  have dl: "daily_limit ?L1 = daily_limit L" by (rule rollover_daily_limit)
  have day: "cu_date (current_usage ?L1) = today E" by (rule rollover_date)
  have size: "calculate_optimal_batch_size E L symbols = (Inr ?b, ?L1)"
    using limit some
    by (simp add: calculate_optimal_batch_size_def get_usage_def dl Let_def)
  have nz: "?b \<noteq> 0" by simp
  have slice: "slice_to symbols ?b = take (nat ?rem) symbols"
    using some by (auto simp add: slice_to_def min_def)
  have enough: "cu_used (current_usage ?L1) + int (length (take (nat ?rem) symbols))
                  \<le> daily_limit ?L1"
  proof -
    have "int (length (take (nat ?rem) symbols)) \<le> ?rem" using some by simp
    then show ?thesis unfolding dl by linarith
  qed
  obtain results L' C' where
    loop: "fetch_loop E s e (take (nat ?rem) symbols) ?L1 C Map.empty = (results, L', C')"
    by (cases "fetch_loop E s e (take (nat ?rem) symbols) ?L1 C Map.empty") auto
  have "dom results = {x \<in> set (take (nat ?rem) symbols).
                         cache_hit E C s e x \<or> fetchable E s e x}"
    using fetch_loop_exact [OF day enough, of C s e
        "\<lambda>x. cache_hit E C s e x \<or> fetchable E s e x" Map.empty] loop by simp
  moreover have "fetch_multiple_symbols E L C symbols s e = (Inr results, L', C')"
    unfolding fetch_multiple_symbols_def size using nz slice loop
    by (simp del: fetch_loop.simps)
  ultimately show ?thesis by blast
qed


lemma example_not_cached: "\<not> cache_hit E empty_cache s e x"
  by (simp add: cache_hit_def cache_get_def empty_cache_def)

lemma example_fetchable: "fetchable example_env 19000 19001 x \<longleftrightarrow> x \<noteq> ''INVALID''"
proof -
  have v: "validate (bars [19000, 19001]) = Inr (bars [19000, 19001])"
    by (rule validate_bars) simp_all
  have st: "\<not> isl (store_rows 1000 x (rows (bars [19000, 19001])) [] 0)"
    by (simp add: bars_def bar_def py_float_def py_int_def row_get_def py_trunc_def
        sqlite_integer_def Let_def)
  show ?thesis using v st
    by (simp add: fetchable_def example_env_def example_provider_def)
qed

text \<open>
  Claim C7, as amended.  Whatever \<^verbatim>\<open>fetch_multiple_symbols\<close> returns, every key of the result
  is one of the requested symbols, and one whose lookup in the cache returns a dataset or for
  which the provider returns a dataset that passes validation and can be stored: a symbol
  that is not served from the cache and whose provider call raises (\<^verbatim>\<open>InvalidSymbolError\<close> or
  anything else) or returns unusable data is never in the result.  When the limit is not
  zero and quota remains today, the call returns, and the keys of the result are exactly
  those symbols among the first \<open>remaining\<close> of the list: a failure does not stop the symbols
  after it from being processed, and the symbols beyond the remaining quota are not processed
  at all.
\<close>

theorem fetch_multiple_symbols_skips_failures:
  "(\<forall>results L' C' symbol.
      fetch_multiple_symbols E L C symbols s e = (Inr results, L', C') \<and> symbol \<in> dom results \<longrightarrow>
      symbol \<in> set symbols \<and> (cache_hit E C s e symbol \<or> fetchable E s e symbol)) \<and>
   (daily_limit L \<noteq> 0 \<and>
    0 < daily_limit L - cu_used (current_usage (rollover (today E) L)) \<longrightarrow>
    (\<exists>results L' C'.
       fetch_multiple_symbols E L C symbols s e = (Inr results, L', C') \<and>
       dom results =
         {symbol \<in> set (take (nat (daily_limit L -
                                    cu_used (current_usage (rollover (today E) L)))) symbols).
            cache_hit E C s e symbol \<or> fetchable E s e symbol}))"
proof (intro conjI allI impI)
  fix results L' C' symbol
  assume a: "fetch_multiple_symbols E L C symbols s e = (Inr results, L', C') \<and>
             symbol \<in> dom results"
  from a have r: "fetch_multiple_symbols E L C symbols s e = (Inr results, L', C')"
    and k: "symbol \<in> dom results" by simp_all
  from fetch_multiple_symbols_origin [OF r k]
  show "symbol \<in> set symbols"
    and "cache_hit E C s e symbol \<or> fetchable E s e symbol"
    by simp_all
next
  assume h: "daily_limit L \<noteq> 0 \<and>
    0 < daily_limit L - cu_used (current_usage (rollover (today E) L))"
  from h have 1: "daily_limit L \<noteq> 0" by (rule conjunct1)
  from h have 2: "0 < daily_limit L - cu_used (current_usage (rollover (today E) L))"
    by (rule conjunct2)
  show "\<exists>results L' C'.
       fetch_multiple_symbols E L C symbols s e = (Inr results, L', C') \<and>
       dom results =
         {symbol \<in> set (take (nat (daily_limit L -
                                    cu_used (current_usage (rollover (today E) L)))) symbols).
            cache_hit E C s e symbol \<or> fetchable E s e symbol}"
    by (rule fetch_multiple_symbols_exact [OF 1 2])
qed

theorem fetch_multiple_symbols_skips_failures_witness:
  "daily_limit (limiter_at 19000 10 7) \<noteq> 0 \<and>
   0 < daily_limit (limiter_at 19000 10 7) -
       cu_used (current_usage (rollover (today example_env) (limiter_at 19000 10 7))) \<and>
   (\<exists>results L' C'.
     fetch_multiple_symbols example_env (limiter_at 19000 10 7) empty_cache
       [''AAPL'', ''INVALID'', ''MSFT''] 19000 19001 = (Inr results, L', C') \<and>
     dom results = {''AAPL'', ''MSFT''} \<and> ''INVALID'' \<notin> dom results)"
proof -
  have limit: "daily_limit (limiter_at 19000 10 7) \<noteq> 0" by (simp add: limiter_at_def)
  have rem: "daily_limit (limiter_at 19000 10 7) -
       cu_used (current_usage (rollover (today example_env) (limiter_at 19000 10 7))) = 3"
    by (simp add: limiter_at_def rollover_def example_env_def)
  have some: "0 < daily_limit (limiter_at 19000 10 7) -
       cu_used (current_usage (rollover (today example_env) (limiter_at 19000 10 7)))"
    by (simp add: rem)
  have keys: "{symbol \<in> set (take (nat 3) [''AAPL'', ''INVALID'', ''MSFT'']).
                cache_hit example_env empty_cache 19000 19001 symbol \<or>
                fetchable example_env 19000 19001 symbol}
              = {''AAPL'', ''MSFT''}"
    by (auto simp add: example_not_cached example_fetchable)
  have hyps: "daily_limit (limiter_at 19000 10 7) \<noteq> 0 \<and>
      0 < daily_limit (limiter_at 19000 10 7) -
          cu_used (current_usage (rollover (today example_env) (limiter_at 19000 10 7)))"
    using limit some by (intro conjI)
  note T = fetch_multiple_symbols_skips_failures [of example_env "limiter_at 19000 10 7"
      empty_cache "[''AAPL'', ''INVALID'', ''MSFT'']" 19000 19001]
  from T [THEN conjunct2, THEN mp, OF hyps]
  have "\<exists>results L' C'.
     fetch_multiple_symbols example_env (limiter_at 19000 10 7) empty_cache
       [''AAPL'', ''INVALID'', ''MSFT''] 19000 19001 = (Inr results, L', C') \<and>
     dom results = {''AAPL'', ''MSFT''}"
    by (simp only: rem keys)
  then obtain results L' C' where
    r: "fetch_multiple_symbols example_env (limiter_at 19000 10 7) empty_cache
       [''AAPL'', ''INVALID'', ''MSFT''] 19000 19001 = (Inr results, L', C')"
    and d: "dom results = {''AAPL'', ''MSFT''}"
    by (elim exE conjE)
  have n: "''INVALID'' \<notin> dom results" by (simp add: d)
  have "\<exists>results L' C'.
     fetch_multiple_symbols example_env (limiter_at 19000 10 7) empty_cache
       [''AAPL'', ''INVALID'', ''MSFT''] 19000 19001 = (Inr results, L', C') \<and>
     dom results = {''AAPL'', ''MSFT''} \<and> ''INVALID'' \<notin> dom results"
    by (intro exI conjI) (rule r, rule d, rule n)
  then show ?thesis using limit some by (intro conjI)
qed

text \<open>
  Claim C7 as stated fails: with two requests left of the daily limit, the batch for
  \<^verbatim>\<open>[AAPL, INVALID, MSFT]\<close> is cut to its first two symbols.  The provider has valid data for
  \<^verbatim>\<open>MSFT\<close>, only \<^verbatim>\<open>INVALID\<close> fails, and the result holds \<^verbatim>\<open>AAPL\<close> alone.
\<close>

theorem fetch_multiple_symbols_truncated_counterexample:
  "provider example_env ''MSFT'' 19000 19001 = Inr (bars [19000, 19001]) \<and>
   validate (bars [19000, 19001]) = Inr (bars [19000, 19001]) \<and>
   \<not> isl (fst (fetch_multiple_symbols example_env (limiter_at 19000 10 8) empty_cache
               [''AAPL'', ''INVALID'', ''MSFT''] 19000 19001)) \<and>
   dom (projr (fst (fetch_multiple_symbols example_env (limiter_at 19000 10 8) empty_cache
               [''AAPL'', ''INVALID'', ''MSFT''] 19000 19001))) = {''AAPL''}"
proof -
  have p: "provider example_env ''MSFT'' 19000 19001 = Inr (bars [19000, 19001])"
    by (simp add: example_env_def example_provider_def)
  have v: "validate (bars [19000, 19001]) = Inr (bars [19000, 19001])"
    by (rule validate_bars) simp_all
  have limit: "daily_limit (limiter_at 19000 10 8) \<noteq> 0" by (simp add: limiter_at_def)
  have rem: "daily_limit (limiter_at 19000 10 8) -
       cu_used (current_usage (rollover (today example_env) (limiter_at 19000 10 8))) = 2"
    by (simp add: limiter_at_def rollover_def example_env_def)
  have some: "0 < daily_limit (limiter_at 19000 10 8) -
       cu_used (current_usage (rollover (today example_env) (limiter_at 19000 10 8)))"
    by (simp add: rem)
  have two: "take (nat 2) [''AAPL'', ''INVALID'', ''MSFT''] = [''AAPL'', ''INVALID'']"
    by (simp add: numeral_2_eq_2)
  have keys: "{symbol \<in> set (take (nat 2) [''AAPL'', ''INVALID'', ''MSFT'']).
                cache_hit example_env empty_cache 19000 19001 symbol \<or>
                fetchable example_env 19000 19001 symbol}
              = {''AAPL''}"
    unfolding two by (auto simp add: example_not_cached example_fetchable)
  from fetch_multiple_symbols_exact [OF limit some, of empty_cache
      "[''AAPL'', ''INVALID'', ''MSFT'']" 19000 19001]
  have "\<exists>results L' C'.
     fetch_multiple_symbols example_env (limiter_at 19000 10 8) empty_cache
       [''AAPL'', ''INVALID'', ''MSFT''] 19000 19001 = (Inr results, L', C') \<and>
     dom results = {''AAPL''}"
    by (simp only: rem keys)
  then obtain results L' C' where
    r: "fetch_multiple_symbols example_env (limiter_at 19000 10 8) empty_cache
       [''AAPL'', ''INVALID'', ''MSFT''] 19000 19001 = (Inr results, L', C')"
    and d: "dom results = {''AAPL''}"
    by (elim exE conjE)
  show ?thesis by (simp add: p v r d)
qed

end
